theory Spec2Isabelle
  imports Main "HOL-Library.Word"
begin

section \<open>Data model of \<open>StegoProApp\<close> (src/pres.js)\<close>

text \<open>
  JavaScript strings are sequences of UTF-16 code units. File names, which may hold any
  code unit, are lists of naturals below 65536; base64 text, data URLs and MIME types are
  ASCII and are modelled as \<open>string\<close>. Object URLs and \<open>AbortController\<close> objects are
  opaque identities, numbered in the order of their creation.
\<close>

type_synonym jsstring = "nat list"
type_synonym url = nat
type_synonym controller = nat

record blob =
  blob_bytes :: "8 word list"
  blob_type :: string

record jsfile =
  file_name :: jsstring
  file_type :: string
  file_bytes :: "8 word list"

definition file_size :: "jsfile \<Rightarrow> nat" where
  "file_size f = length (file_bytes f)"

text \<open>
  \<open>this.stats\<close>. The counters are JavaScript numbers holding integers; the model uses
  unbounded integers, which agrees with the program below \<open>2 ^ 53\<close>.
\<close>

record stats =
  filesProcessed :: int
  dataHidden :: int
  successfulOperations :: int

text \<open>
  Texts shown to the user are kept by their structure, one constructor per literal of the
  source, with the embedded message as argument:
  \<^item> \<open>MsgReadFailed\<close>: the \<open>FileReader\<close> error of \<open>fileToBase64\<close>;
  \<^item> \<open>MsgHttpError n\<close>: \<open>HTTP error! status: n\<close>;
  \<^item> \<open>MsgService e\<close>: \<open>result.error\<close> of the service, verbatim;
  \<^item> \<open>MsgBrowser\<close>: the message of an exception raised by the browser;
  \<^item> \<open>MsgDecodeFailed m\<close>: the prefix added by \<open>base64ToBlob\<close>;
  \<^item> \<open>MsgHideData m\<close>, \<open>MsgExtractData m\<close>: the prefixes added by \<open>hideData\<close> and
    \<open>extractData\<close>;
  \<^item> \<open>MsgHideFailed m\<close>, \<open>MsgExtractFailed m\<close>: the toasts of \<open>startHiding\<close> and
    \<open>startExtracting\<close> for a failed operation;
  \<^item> \<open>MsgFilesMissing\<close>, \<open>MsgExtractFileMissing\<close>: the toasts for an incomplete request;
  \<^item> \<open>MsgAchievement a\<close>: the toast of \<open>showAchievement\<close>;
  \<^item> \<open>MsgLoggedOut\<close>: the toast of \<open>logoutGoogle\<close>.
\<close>

datatype message =
    MsgReadFailed
  | MsgHttpError nat
  | MsgService string
  | MsgBrowser
  | MsgDecodeFailed message
  | MsgHideData message
  | MsgExtractData message
  | MsgHideFailed message
  | MsgExtractFailed message
  | MsgFilesMissing
  | MsgExtractFileMissing
  | MsgAchievement string
  | MsgLoggedOut

datatype toast_type = ToastSuccess | ToastError | ToastWarning

record toast =
  toast_message :: message
  toast_type :: toast_type

record js_error =
  err_name :: string
  err_message :: message

text \<open>
  Calls of \<open>fetch\<close> with what identifies them; a call is recorded by the step that
  models its exchange.
\<close>

datatype fetch_call =
    ApiHide "string option" "string option" "string option" controller
  | ApiExtract "string option" controller
  | ApiSaveStats stats "string list"
  | ApiLogout
  | ApiUser

text \<open>
  The fields of the application object that the operations below read or write
  (achievements are kept by their \<open>id\<close>), followed by the part of the browser they act
  on: whether the element \<open>navAvatar\<close> exists and carries the class \<open>hidden\<close>, the
  download link of the results section, the blob URL store behind
  \<open>URL.createObjectURL\<close> and \<open>URL.revokeObjectURL\<close>, the controllers whose \<open>abort()\<close>
  has been called, the calls of \<open>fetch\<close>, the toasts shown, the login prompt, and the
  three entries of \<open>localStorage\<close>.
\<close>

record app =
  currentMethod :: "string option"
  containerFile :: "jsfile option"
  dataFile :: "jsfile option"
  extractFile :: "jsfile option"
  stats :: stats
  achievements :: "string list"
  currentOperationController :: "controller option"
  anonOperationCount :: int
  objectURLs :: "url set"
  navAvatarHidden :: "bool option"
  resultsContent :: "url option"
  blobStore :: "url \<rightharpoonup> blob"
  nextURL :: url
  nextController :: controller
  aborted :: "controller set"
  fetchCalls :: "fetch_call list"
  toasts :: "toast list"
  loginPrompt :: bool
  stored_anon_ops :: "int option"
  stored_stats :: "stats option"
  stored_achievements :: "string list option"

text \<open>
  The constructor, from the three entries of \<open>localStorage\<close>; a missing entry gives the
  default of \<open>loadStats\<close>, \<open>loadAchievements\<close> and \<open>parseInt(... || '0')\<close>. The stored
  counter is a decimal integer, as the program itself writes it. What \<open>init\<close> does
  next to the state, \<open>checkAchievements\<close> and \<open>loadGoogleUser\<close>, are events of their
  own below.
\<close>

definition loadStats :: "stats option \<Rightarrow> stats" where
  "loadStats saved =
     (case saved of
        Some st \<Rightarrow> st
      | None \<Rightarrow> \<lparr>filesProcessed = 0, dataHidden = 0, successfulOperations = 0\<rparr>)"

definition loadAchievements :: "string list option \<Rightarrow> string list" where
  "loadAchievements saved = (case saved of Some a \<Rightarrow> a | None \<Rightarrow> [])"

definition constructor :: "stats option \<Rightarrow> string list option \<Rightarrow> int option \<Rightarrow> bool option \<Rightarrow> app" where
  "constructor st ach ops avatar =
     \<lparr>currentMethod = None, containerFile = None, dataFile = None, extractFile = None,
      stats = loadStats st, achievements = loadAchievements ach,
      currentOperationController = None,
      anonOperationCount = (case ops of Some n \<Rightarrow> n | None \<Rightarrow> 0),
      objectURLs = {}, navAvatarHidden = avatar, resultsContent = None,
      blobStore = Map.empty, nextURL = 0, nextController = 0, aborted = {},
      fetchCalls = [], toasts = [], loginPrompt = False,
      stored_anon_ops = ops, stored_stats = st, stored_achievements = ach\<rparr>"

text \<open>
  \<open>isUserLoggedIn\<close> is how the program tells a logged-in session from an anonymous one:
  the avatar of the navigation bar exists and is shown.
\<close>

definition isUserLoggedIn :: "app \<Rightarrow> bool" where
  "isUserLoggedIn s = (case navAvatarHidden s of None \<Rightarrow> False | Some h \<Rightarrow> \<not> h)"

definition showToast :: "message \<Rightarrow> toast_type \<Rightarrow> app \<Rightarrow> app" where
  "showToast m t s = s\<lparr>toasts := toasts s @ [\<lparr>toast_message = m, toast_type = t\<rparr>]\<rparr>"

section \<open>Resource tracker\<close>

text \<open>
  \<open>cleanupObjectURLs\<close> revokes every tracked URL (the \<open>try\<close> around
  \<open>URL.revokeObjectURL\<close> has nothing to catch: the call throws for no string) and
  clears the set.
\<close>

definition cleanupObjectURLs :: "app \<Rightarrow> app" where
  "cleanupObjectURLs s =
     s\<lparr>blobStore := restrict_map (blobStore s) (- objectURLs s), objectURLs := {}\<rparr>"

definition createTrackedObjectURL :: "blob \<Rightarrow> app \<Rightarrow> url \<times> app" where
  "createTrackedObjectURL b s =
     (let u = nextURL s
      in (u, s\<lparr>blobStore := (blobStore s)(u \<mapsto> b), nextURL := Suc u,
                objectURLs := insert u (objectURLs s)\<rparr>))"

definition revokeTrackedObjectURL :: "url \<Rightarrow> app \<Rightarrow> app" where
  "revokeTrackedObjectURL u s =
     (if u \<in> objectURLs s
      then s\<lparr>blobStore := (blobStore s)(u := None), objectURLs := objectURLs s - {u}\<rparr>
      else s)"

section \<open>File name sanitising\<close>

text \<open>
  The character class \<open>[<>:"|?*\x00-\x1F]\<close> of the first \<open>replace\<close>, the leading dots
  of the second, \<open>substring(0, 255)\<close>, and \<open>trim()\<close>, which removes the white space and
  line terminators of ECMAScript from both ends.
\<close>

definition stripped_char :: "nat \<Rightarrow> bool" where
  "stripped_char c \<longleftrightarrow> c \<in> {60, 62, 58, 34, 124, 63, 42} \<or> c \<le> 31"

definition js_white_space :: "nat \<Rightarrow> bool" where
  "js_white_space c \<longleftrightarrow>
     c \<in> {9, 10, 11, 12, 13, 32, 160, 5760, 8232, 8233, 8239, 8287, 12288, 65279}
     \<or> (8192 \<le> c \<and> c \<le> 8202)"

definition trim :: "jsstring \<Rightarrow> jsstring" where
  "trim xs = rev (dropWhile js_white_space (rev (dropWhile js_white_space xs)))"

definition sanitizeFilename :: "jsstring \<Rightarrow> jsstring" where
  "sanitizeFilename filename =
     (if filename = [] then []
      else trim (take 255 (dropWhile (\<lambda>c. c = 46)
             (filter (\<lambda>c. \<not> stripped_char c) filename))))"

section \<open>Stats ledger\<close>

definition saveStats :: "app \<Rightarrow> app" where
  "saveStats s = s\<lparr>stored_stats := Some (stats s)\<rparr>"

definition saveAchievements :: "app \<Rightarrow> app" where
  "saveAchievements s = s\<lparr>stored_achievements := Some (achievements s)\<rparr>"

text \<open>\<open>saveStatsToCloud\<close> posts the counters and swallows every failure.\<close>

definition saveStatsToCloud :: "app \<Rightarrow> app" where
  "saveStatsToCloud s = s\<lparr>fetchCalls := fetchCalls s @ [ApiSaveStats (stats s) (achievements s)]\<rparr>"

definition updateStatsAfterOperation :: "string \<Rightarrow> int \<Rightarrow> app \<Rightarrow> app" where
  "updateStatsAfterOperation operation dataSize s =
     (let st1 = (stats s)\<lparr>filesProcessed := filesProcessed (stats s) + 1\<rparr>;
          st2 = (if operation = ''hide''
                 then st1\<lparr>dataHidden := dataHidden st1 + dataSize,
                          successfulOperations := successfulOperations st1 + 1\<rparr>
                 else if operation = ''extract''
                 then st1\<lparr>successfulOperations := successfulOperations st1 + 1\<rparr>
                 else st1)
      in saveStatsToCloud (saveStats (s\<lparr>stats := st2\<rparr>)))"

definition hasAchievement :: "string \<Rightarrow> app \<Rightarrow> bool" where
  "hasAchievement i s \<longleftrightarrow> i \<in> set (achievements s)"

definition showAchievement :: "string \<Rightarrow> app \<Rightarrow> app" where
  "showAchievement a s = showToast (MsgAchievement a) ToastSuccess s"

text \<open>
  The seven rules of \<open>checkAchievements\<close>, in the order of the source. Every condition is
  evaluated before the first new achievement is pushed.
\<close>

definition newAchievements :: "app \<Rightarrow> string list" where
  "newAchievements s =
     (let st = stats s in
      (if filesProcessed st = 1 \<and> \<not> hasAchievement ''first_file'' s
       then [''first_file''] else [])
      @ (if dataHidden st \<ge> 1024 * 1024 \<and> \<not> hasAchievement ''data_hider'' s
         then [''data_hider''] else [])
      @ (if filesProcessed st \<ge> 10 \<and> \<not> hasAchievement ''pro_user'' s
         then [''pro_user''] else [])
      @ (if filesProcessed st \<ge> 20 \<and> \<not> hasAchievement ''master'' s
         then [''master''] else [])
      @ (if dataHidden st \<ge> 10 * 1024 * 1024 \<and> \<not> hasAchievement ''megabyte_hider'' s
         then [''megabyte_hider''] else [])
      @ (if successfulOperations st \<ge> 5 \<and> \<not> hasAchievement ''extractor'' s
         then [''extractor''] else [])
      @ (if filesProcessed st \<ge> 10 \<and> successfulOperations st = filesProcessed st
            \<and> \<not> hasAchievement ''perfectionist'' s
         then [''perfectionist''] else []))"

definition checkAchievements :: "app \<Rightarrow> app" where
  "checkAchievements s =
     (let new = newAchievements s;
          s1 = fold (\<lambda>a t. showAchievement a (t\<lparr>achievements := achievements t @ [a]\<rparr>)) new s
      in if length new > 0 then saveStatsToCloud (saveAchievements s1) else s1)"

section \<open>Login and logout\<close>

text \<open>
  The reply of \<open>/api/user\<close>: \<open>None\<close> when the request or its parsing fails, otherwise
  \<open>logged_in\<close>, whether a picture is given, and \<open>user.stats\<close> with its achievements.
  Without the element \<open>navAvatar\<close> every branch ends in the \<open>catch\<close>, which then has
  nothing to hide.
\<close>

record user_reply =
  logged_in :: bool
  has_picture :: bool
  user_stats :: "(stats \<times> string list option) option"

definition loadGoogleUser :: "user_reply option \<Rightarrow> app \<Rightarrow> app" where
  "loadGoogleUser reply s0 =
     (let s = s0\<lparr>fetchCalls := fetchCalls s0 @ [ApiUser]\<rparr> in
      case navAvatarHidden s of
        None \<Rightarrow> s
      | Some _ \<Rightarrow>
         (case reply of
            None \<Rightarrow> s\<lparr>navAvatarHidden := Some True\<rparr>
          | Some user \<Rightarrow>
              if logged_in user then
                (let s1 = s\<lparr>navAvatarHidden := Some (\<not> has_picture user)\<rparr>;
                     s2 = (case user_stats user of
                             None \<Rightarrow> s1
                           | Some (st, ach) \<Rightarrow>
                               saveAchievements (saveStats
                                 (s1\<lparr>stats := st,
                                     achievements := (case ach of Some a \<Rightarrow> a | None \<Rightarrow> [])\<rparr>)))
                 in s2\<lparr>anonOperationCount := 0, stored_anon_ops := None\<rparr>)
              else s\<lparr>navAvatarHidden := Some True\<rparr>))"

text \<open>
  \<open>logoutGoogle\<close> up to its call of \<open>loadGoogleUser\<close>, whose reply arrives later and is a
  step of its own.
\<close>

definition logoutGoogle :: "app \<Rightarrow> app" where
  "logoutGoogle s =
     (let s1 = s\<lparr>fetchCalls := fetchCalls s @ [ApiLogout]\<rparr>;
          s2 = s1\<lparr>stats := \<lparr>filesProcessed = 0, dataHidden = 0, successfulOperations = 0\<rparr>,
                  achievements := []\<rparr>
      in showToast MsgLoggedOut ToastSuccess (saveAchievements (saveStats s2)))"

section \<open>Binary codec\<close>

text \<open>
  The browser's half of the codec, from its standards: \<open>FileReader.readAsDataURL\<close> gives
  \<open>data:\<close>, the media type, \<open>;base64,\<close> and the base64 text of the bytes (RFC 4648,
  with padding); \<open>atob\<close> is the forgiving base64 decoder of the WHATWG Infra standard and
  fails (\<open>None\<close>, an \<open>InvalidCharacterError\<close>) on text it cannot decode. Three bytes are
  the 24-bit number \<open>n\<close>, four sextets its base-64 digits.
\<close>

definition b64chars :: string where
  "b64chars = ''ABCDEFGHIJKLMNOPQRSTUVWXYZabcdefghijklmnopqrstuvwxyz0123456789+/''"

definition b64char :: "nat \<Rightarrow> char" where
  "b64char i = b64chars ! (i mod 64)"

fun base64_encode :: "8 word list \<Rightarrow> string" where
  "base64_encode [] = []"
| "base64_encode [a] =
     (let n = unat a * 65536
      in [b64char (n div 262144), b64char (n div 4096), CHR ''='', CHR ''=''])"
| "base64_encode [a, b] =
     (let n = unat a * 65536 + unat b * 256
      in [b64char (n div 262144), b64char (n div 4096), b64char (n div 64), CHR ''=''])"
| "base64_encode (a # b # c # r) =
     (let n = unat a * 65536 + unat b * 256 + unat c
      in [b64char (n div 262144), b64char (n div 4096), b64char (n div 64), b64char n]
         @ base64_encode r)"

definition readAsDataURL :: "jsfile \<Rightarrow> string" where
  "readAsDataURL f = ''data:'' @ file_type f @ '';base64,'' @ base64_encode (file_bytes f)"

fun find_index_of :: "char \<Rightarrow> string \<Rightarrow> nat option" where
  "find_index_of c [] = None"
| "find_index_of c (x # xs) =
     (if x = c then Some 0 else map_option Suc (find_index_of c xs))"

definition b64value :: "char \<Rightarrow> nat option" where
  "b64value c = find_index_of c b64chars"

definition ascii_whitespace :: "char \<Rightarrow> bool" where
  "ascii_whitespace c \<longleftrightarrow> of_char c \<in> {9, 10, 12, 13, 32 :: nat}"

definition strip_padding :: "string \<Rightarrow> string" where
  "strip_padding d =
     (if length d mod 4 = 0
      then (case rev d of
              x # y # r \<Rightarrow>
                if x = CHR ''='' \<and> y = CHR ''='' then rev r
                else if x = CHR ''='' then rev (y # r) else d
            | _ \<Rightarrow> d)
      else d)"

fun decode_sextets :: "nat list \<Rightarrow> nat list" where
  "decode_sextets (p # q # r # s # rest) =
     (let n = ((p * 64 + q) * 64 + r) * 64 + s
      in [n div 65536, n div 256 mod 256, n mod 256] @ decode_sextets rest)"
| "decode_sextets [p, q, r] =
     (let n = ((p * 64 + q) * 64 + r) div 4 in [n div 256, n mod 256])"
| "decode_sextets [p, q] = [(p * 64 + q) div 16]"
| "decode_sextets _ = []"

text \<open>\<open>atob\<close> returns a string whose code units are the decoded bytes.\<close>

definition atob :: "string \<Rightarrow> jsstring option" where
  "atob data =
     (let d = strip_padding (filter (\<lambda>c. \<not> ascii_whitespace c) data)
      in if length d mod 4 = 1 then None
         else map_option decode_sextets (those (map b64value d)))"

text \<open>
  \<open>String.prototype.split\<close> with a one-character separator, and the element at index 1
  of its result (\<open>None\<close> is \<open>undefined\<close>).
\<close>

fun split_js :: "char \<Rightarrow> string \<Rightarrow> string list" where
  "split_js sep [] = [[]]"
| "split_js sep (x # xs) =
     (if x = sep then [] # split_js sep xs
      else (case split_js sep xs of
              y # ys \<Rightarrow> (x # y) # ys
            | [] \<Rightarrow> [[x]]))"

definition index1 :: "'a list \<Rightarrow> 'a option" where
  "index1 xs = (case xs of _ # y # _ \<Rightarrow> Some y | _ \<Rightarrow> None)"

text \<open>
  \<open>fileToBase64\<close>: the promise resolves with the text after the first comma of the data
  URL, or rejects when the reader fails (\<open>readable\<close> is the reader's outcome).
  \<open>fileToBase64Chunked\<close> reads a file of 1 MiB or more in the same single pass.
\<close>

definition fileToBase64 :: "bool \<Rightarrow> jsfile \<Rightarrow> js_error + string option" where
  "fileToBase64 readable f =
     (if readable then Inr (index1 (split_js CHR '','' (readAsDataURL f)))
      else Inl \<lparr>err_name = ''Error'', err_message = MsgReadFailed\<rparr>)"

definition fileToBase64Chunked :: "bool \<Rightarrow> jsfile \<Rightarrow> js_error + string option" where
  "fileToBase64Chunked readable f =
     (let chunkSize = 1024 * 1024 in
      if file_size f < chunkSize then fileToBase64 readable f
      else if readable then Inr (index1 (split_js CHR '','' (readAsDataURL f)))
      else Inl \<lparr>err_name = ''Error'', err_message = MsgReadFailed\<rparr>)"

text \<open>
  The loop of \<open>base64ToBlob\<close>: one \<open>Uint8Array\<close> per slice of 8192 characters, each
  element the character's code stored into a byte.
\<close>

function byteArrays :: "jsstring \<Rightarrow> nat \<Rightarrow> 8 word list list" where
  "byteArrays byteCharacters offset =
     (if offset < length byteCharacters
      then map of_nat (take 8192 (drop offset byteCharacters))
           # byteArrays byteCharacters (offset + 8192)
      else [])"
  by pat_completeness auto
termination
  by (relation "measure (\<lambda>(s, offset). length s - offset)") auto

definition base64ToBlob :: "string \<Rightarrow> string \<Rightarrow> js_error + blob" where
  "base64ToBlob base64 mimeType =
     (case atob base64 of
        None \<Rightarrow> Inl \<lparr>err_name = ''Error'', err_message = MsgDecodeFailed MsgBrowser\<rparr>
      | Some byteCharacters \<Rightarrow>
          Inr \<lparr>blob_bytes = concat (byteArrays byteCharacters 0), blob_type = mimeType\<rparr>)"

definition MAX_FILE_SIZE :: nat where
  "MAX_FILE_SIZE = 50 * 1024 * 1024"

section \<open>Operation controller\<close>

text \<open>
  An asynchronous method runs in two steps: from its call to its \<open>await\<close>, and from the
  moment the awaited promise settles to its end. Between the two, other handlers run.
  The first step returns which of its exits it took and, for a started operation, the
  arguments it passed to \<open>hideData\<close> or \<open>extractData\<close>; the second returns how the
  \<open>try\<close> ended: \<open>Succeeded\<close> at its last statement, \<open>Cancelled\<close> in the \<open>catch\<close> with
  an \<open>AbortError\<close> (no toast), \<open>Failed\<close> in the \<open>catch\<close> with its toast. Updates of the
  page other than toasts, the login prompt and the download link are not modelled.
\<close>

record hide_op =
  op_container :: jsfile
  op_data :: jsfile
  op_password :: jsstring
  op_signal :: controller

record extract_op =
  xop_stego :: jsfile
  xop_password :: jsstring
  xop_signal :: controller

datatype 'op start_result = QuotaDenied | InvalidRequest | Started 'op

datatype terminal = Succeeded | Failed | Cancelled

text \<open>
  What the remote service answers when the exchange is not aborted: the request fails
  (\<open>fetch\<close> rejects), or a response arrives with its status and, when its body parses as
  JSON, the body: \<open>success\<close> false with \<open>error\<close>, or \<open>success\<close> true with the payload.
  Fields of the body that only feed the generated HTML are left out.
\<close>

datatype 'r service_reply = ServiceFailure string | ServiceSuccess 'r

datatype 'r exchange = FetchRejected | Responded nat "'r service_reply option"

record hide_reply =
  stego_data :: string

record extract_reply =
  extracted_data :: string
  original_filename :: string
  file_extension :: string

record hide_env =
  container_readable :: bool
  data_readable :: bool
  hide_exchange :: "hide_reply exchange"

record extract_env =
  stego_readable :: bool
  extract_exchange :: "extract_reply exchange"

definition showLoginPrompt :: "app \<Rightarrow> app" where
  "showLoginPrompt s = (if loginPrompt s then s else s\<lparr>loginPrompt := True\<rparr>)"

definition cancelOperation :: "app \<Rightarrow> app" where
  "cancelOperation s =
     (let s1 = (case currentOperationController s of
                  Some c \<Rightarrow> s\<lparr>aborted := insert c (aborted s), currentOperationController := None\<rparr>
                | None \<Rightarrow> s)
      in s1\<lparr>containerFile := None, dataFile := None, extractFile := None,
            currentOperationController := None, resultsContent := None\<rparr>)"

definition startHiding :: "jsstring \<Rightarrow> app \<Rightarrow> hide_op start_result \<times> app" where
  "startHiding password s =
     (if \<not> isUserLoggedIn s \<and> anonOperationCount s \<ge> 10
      then (QuotaDenied, showLoginPrompt s)
      else
        (case (containerFile s, dataFile s, currentMethod s) of
           (Some c, Some d, Some m) \<Rightarrow>
             if m = [] then (InvalidRequest, showToast MsgFilesMissing ToastError s)
             else
               (let ctl = nextController s
                in (Started \<lparr>op_container = c, op_data = d, op_password = password,
                             op_signal = ctl\<rparr>,
                    s\<lparr>currentOperationController := Some ctl, nextController := Suc ctl\<rparr>))
         | _ \<Rightarrow> (InvalidRequest, showToast MsgFilesMissing ToastError s)))"

definition startExtracting :: "jsstring \<Rightarrow> app \<Rightarrow> extract_op start_result \<times> app" where
  "startExtracting password s =
     (if \<not> isUserLoggedIn s \<and> anonOperationCount s \<ge> 2
      then (QuotaDenied, showLoginPrompt s)
      else
        (case extractFile s of
           Some f \<Rightarrow>
             (let ctl = nextController s
              in (Started \<lparr>xop_stego = f, xop_password = password, xop_signal = ctl\<rparr>,
                  s\<lparr>currentOperationController := Some ctl, nextController := Suc ctl\<rparr>))
         | None \<Rightarrow> (InvalidRequest, showToast MsgExtractFileMissing ToastError s)))"

text \<open>
  The network exchange. \<open>fetch\<close> is called once the files are read; it rejects with an
  \<open>AbortError\<close> when the signal's controller has been aborted before the exchange
  settles. A status outside 200..299 and a body with \<open>success\<close> false are thrown as
  errors.
\<close>

definition exchange_result :: "controller \<Rightarrow> 'r exchange \<Rightarrow> app \<Rightarrow> js_error + 'r" where
  "exchange_result signal ex s =
     (if signal \<in> aborted s
      then Inl \<lparr>err_name = ''AbortError'', err_message = MsgBrowser\<rparr>
      else
        (case ex of
           FetchRejected \<Rightarrow> Inl \<lparr>err_name = ''TypeError'', err_message = MsgBrowser\<rparr>
         | Responded status body \<Rightarrow>
             if \<not> (200 \<le> status \<and> status \<le> 299)
             then Inl \<lparr>err_name = ''Error'', err_message = MsgHttpError status\<rparr>
             else
               (case body of
                  None \<Rightarrow> Inl \<lparr>err_name = ''SyntaxError'', err_message = MsgBrowser\<rparr>
                | Some (ServiceFailure e) \<Rightarrow>
                    Inl \<lparr>err_name = ''Error'', err_message = MsgService e\<rparr>
                | Some (ServiceSuccess r) \<Rightarrow> Inr r)))"

text \<open>
  \<open>hideData\<close> and \<open>extractData\<close>: everything thrown inside is caught and thrown again as
  a new \<open>Error\<close> whose message has the method's prefix.
\<close>

definition hideData :: "hide_op \<Rightarrow> hide_env \<Rightarrow> app \<Rightarrow> (js_error + hide_reply) \<times> app" where
  "hideData op env s =
     (let wrap = (\<lambda>e. \<lparr>err_name = ''Error'', err_message = MsgHideData (err_message e)\<rparr>) in
      case fileToBase64Chunked (container_readable env) (op_container op) of
        Inl e \<Rightarrow> (Inl (wrap e), s)
      | Inr containerB64 \<Rightarrow>
         (case fileToBase64Chunked (data_readable env) (op_data op) of
            Inl e \<Rightarrow> (Inl (wrap e), s)
          | Inr secretB64 \<Rightarrow>
             (let s1 = s\<lparr>fetchCalls := fetchCalls s
                          @ [ApiHide containerB64 secretB64 (currentMethod s) (op_signal op)]\<rparr>
              in case exchange_result (op_signal op) (hide_exchange env) s1 of
                   Inl e \<Rightarrow> (Inl (wrap e), s1)
                 | Inr r \<Rightarrow> (Inr r, s1))))"

definition extractData :: "extract_op \<Rightarrow> extract_env \<Rightarrow> app \<Rightarrow> (js_error + extract_reply) \<times> app" where
  "extractData op env s =
     (let wrap = (\<lambda>e. \<lparr>err_name = ''Error'', err_message = MsgExtractData (err_message e)\<rparr>) in
      case fileToBase64Chunked (stego_readable env) (xop_stego op) of
        Inl e \<Rightarrow> (Inl (wrap e), s)
      | Inr stegoB64 \<Rightarrow>
         (let s1 = s\<lparr>fetchCalls := fetchCalls s @ [ApiExtract stegoB64 (xop_signal op)]\<rparr>
          in case exchange_result (xop_signal op) (extract_exchange env) s1 of
               Inl e \<Rightarrow> (Inl (wrap e), s1)
             | Inr r \<Rightarrow> (Inr r, s1)))"

definition to_lower :: "string \<Rightarrow> string" where
  "to_lower xs =
     map (\<lambda>c. if (65::nat) \<le> of_char c \<and> of_char c \<le> (90::nat)
              then char_of (of_char c + (32::nat)) else c) xs"

definition getMimeType :: "string \<Rightarrow> string" where
  "getMimeType extension =
     (case map_of
        [(''txt'', ''text/plain''), (''pdf'', ''application/pdf''),
         (''jpg'', ''image/jpeg''), (''jpeg'', ''image/jpeg''), (''png'', ''image/png''),
         (''gif'', ''image/gif''), (''bmp'', ''image/bmp''), (''mp3'', ''audio/mpeg''),
         (''wav'', ''audio/wav''), (''mp4'', ''video/mp4''), (''zip'', ''application/zip''),
         (''doc'', ''application/msword''),
         (''docx'', ''application/vnd.openxmlformats-officedocument.wordprocessingml.document'')]
        (to_lower extension) of
        Some m \<Rightarrow> m
      | None \<Rightarrow> ''application/octet-stream'')"

text \<open>
  \<open>showResults\<close>: for \<open>hide\<close> it reads \<open>this.containerFile.name\<close> first, a \<open>TypeError\<close>
  when the file has been cleared; the payload is decoded, and only then is the object URL
  created and the download link shown.
\<close>

definition showResults_hide :: "hide_reply \<Rightarrow> app \<Rightarrow> js_error + app" where
  "showResults_hide result s =
     (case containerFile s of
        None \<Rightarrow> Inl \<lparr>err_name = ''TypeError'', err_message = MsgBrowser\<rparr>
      | Some _ \<Rightarrow>
         (case base64ToBlob (stego_data result) ''application/octet-stream'' of
            Inl e \<Rightarrow> Inl e
          | Inr stegoBlob \<Rightarrow>
             (let (stegoUrl, s1) = createTrackedObjectURL stegoBlob s
              in Inr (s1\<lparr>resultsContent := Some stegoUrl\<rparr>))))"

definition showResults_extract :: "extract_reply \<Rightarrow> app \<Rightarrow> js_error + app" where
  "showResults_extract result s =
     (let fileExtension =
            (if original_filename result \<noteq> [] then ''bin''
             else if file_extension result \<noteq> [] then file_extension result
             else ''bin'')
      in case base64ToBlob (extracted_data result) (getMimeType fileExtension) of
           Inl e \<Rightarrow> Inl e
         | Inr dataBlob \<Rightarrow>
            (let (dataUrl, s1) = createTrackedObjectURL dataBlob s
             in Inr (s1\<lparr>resultsContent := Some dataUrl\<rparr>)))"

text \<open>The counter of anonymous operations, incremented and stored.\<close>

definition count_anonymous :: "app \<Rightarrow> app" where
  "count_anonymous s =
     (if \<not> isUserLoggedIn s
      then s\<lparr>anonOperationCount := anonOperationCount s + 1,
             stored_anon_ops := Some (anonOperationCount s + 1)\<rparr>
      else s)"

text \<open>
  The second step of \<open>startHiding\<close> and of \<open>startExtracting\<close>: the \<open>try\<close> from the
  settled exchange on, the \<open>catch\<close>, and the \<open>finally\<close>.
\<close>

definition startHiding_catch :: "js_error \<Rightarrow> app \<Rightarrow> terminal \<times> app" where
  "startHiding_catch e s =
     (if err_name e \<noteq> ''AbortError''
      then (Failed, showToast (MsgHideFailed (err_message e)) ToastError s)
      else (Cancelled, s))"

definition startExtracting_catch :: "js_error \<Rightarrow> app \<Rightarrow> terminal \<times> app" where
  "startExtracting_catch e s =
     (if err_name e \<noteq> ''AbortError''
      then (Failed, showToast (MsgExtractFailed (err_message e)) ToastError s)
      else (Cancelled, s))"

definition startHiding_settle :: "hide_op \<Rightarrow> hide_env \<Rightarrow> app \<Rightarrow> terminal \<times> app" where
  "startHiding_settle op env s =
     (let (t, s') =
        (case hideData op env s of
           (Inl e, s1) \<Rightarrow> startHiding_catch e s1
         | (Inr result, s1) \<Rightarrow>
            (case showResults_hide result s1 of
               Inl e \<Rightarrow> startHiding_catch e s1
             | Inr s2 \<Rightarrow>
                (case dataFile s2 of
                   None \<Rightarrow>
                     startHiding_catch \<lparr>err_name = ''TypeError'', err_message = MsgBrowser\<rparr> s2
                 | Some d \<Rightarrow>
                     (Succeeded,
                      count_anonymous (checkAchievements
                        (updateStatsAfterOperation ''hide'' (int (file_size d)) s2))))))
      in (t, s'\<lparr>currentOperationController := None\<rparr>))"

definition startExtracting_settle :: "extract_op \<Rightarrow> extract_env \<Rightarrow> app \<Rightarrow> terminal \<times> app" where
  "startExtracting_settle op env s =
     (let (t, s') =
        (case extractData op env s of
           (Inl e, s1) \<Rightarrow> startExtracting_catch e s1
         | (Inr result, s1) \<Rightarrow>
            (case showResults_extract result s1 of
               Inl e \<Rightarrow> startExtracting_catch e s1
             | Inr s2 \<Rightarrow>
                (Succeeded,
                 count_anonymous (checkAchievements
                   (updateStatsAfterOperation ''extract'' 0 s2)))))
      in (t, s'\<lparr>currentOperationController := None\<rparr>))"

section \<open>Traces\<close>

text \<open>
  The handlers above as events, and the state after a sequence of them. An operation is
  two events, its start and the settling of its exchange, with any events in between.
  \<open>replaces_stats\<close> tells whether an event, in the state it meets, assigns \<open>this.stats\<close>
  as a whole: a logout does, and so does the reply of \<open>/api/user\<close> for a logged-in user that
  carries stats, when the avatar element exists. \<open>keeps_stats\<close> holds of a sequence of
  events none of which does so in the state it meets. \<open>stats_le\<close> compares the three
  counters fieldwise.

  \<open>controllers_allocated\<close> is the freshness of \<open>new AbortController()\<close>: every controller
  the state knows has been created before, so the next one differs from all of them.

  \<open>service_payload\<close> is the payload of an exchange that went well: a status of 200 to 299
  and a body with \<open>success\<close> true. \<open>hide_completes\<close> and \<open>extract_completes\<close> say, of
  what an operation meets when its exchange settles, that nothing fails: the files are
  read, the controller is not aborted, the exchange went well, its payload decodes, and
  (for hiding) the two files are still selected.
\<close>

datatype event =
    EvStartHiding jsstring
  | EvSettleHiding hide_op hide_env
  | EvStartExtracting jsstring
  | EvSettleExtracting extract_op extract_env
  | EvCancelOperation
  | EvCheckAchievements
  | EvRevoke url
  | EvLogoutGoogle
  | EvLoadGoogleUser "user_reply option"

fun step :: "event \<Rightarrow> app \<Rightarrow> app" where
  "step (EvStartHiding pw) s = snd (startHiding pw s)"
| "step (EvSettleHiding op env) s = snd (startHiding_settle op env s)"
| "step (EvStartExtracting pw) s = snd (startExtracting pw s)"
| "step (EvSettleExtracting op env) s = snd (startExtracting_settle op env s)"
| "step EvCancelOperation s = cancelOperation s"
| "step EvCheckAchievements s = checkAchievements s"
| "step (EvRevoke u) s = revokeTrackedObjectURL u s"
| "step EvLogoutGoogle s = logoutGoogle s"
| "step (EvLoadGoogleUser reply) s = loadGoogleUser reply s"

definition run :: "event list \<Rightarrow> app \<Rightarrow> app" where
  "run es s = fold step es s"

fun replaces_stats :: "event \<Rightarrow> app \<Rightarrow> bool" where
  "replaces_stats EvLogoutGoogle s = True"
| "replaces_stats (EvLoadGoogleUser (Some user)) s =
     (navAvatarHidden s \<noteq> None \<and> logged_in user \<and> user_stats user \<noteq> None)"
| "replaces_stats _ s = False"

fun keeps_stats :: "event list \<Rightarrow> app \<Rightarrow> bool" where
  "keeps_stats [] s = True"
| "keeps_stats (e # es) s = (\<not> replaces_stats e s \<and> keeps_stats es (step e s))"

definition stats_le :: "stats \<Rightarrow> stats \<Rightarrow> bool" where
  "stats_le a b \<longleftrightarrow>
     filesProcessed a \<le> filesProcessed b \<and> dataHidden a \<le> dataHidden b
     \<and> successfulOperations a \<le> successfulOperations b"

definition controllers_allocated :: "app \<Rightarrow> bool" where
  "controllers_allocated s \<longleftrightarrow>
     (\<forall>c \<in> aborted s. c < nextController s)
     \<and> (case currentOperationController s of None \<Rightarrow> True | Some c \<Rightarrow> c < nextController s)"

definition service_payload :: "'r exchange \<Rightarrow> 'r option" where
  "service_payload ex =
     (case ex of
        Responded status (Some (ServiceSuccess r)) \<Rightarrow>
          if 200 \<le> status \<and> status \<le> 299 then Some r else None
      | _ \<Rightarrow> None)"

definition hide_completes :: "hide_op \<Rightarrow> hide_env \<Rightarrow> app \<Rightarrow> bool" where
  "hide_completes op env s \<longleftrightarrow>
     container_readable env \<and> data_readable env \<and> op_signal op \<notin> aborted s
     \<and> (case service_payload (hide_exchange env) of
           None \<Rightarrow> False
         | Some r \<Rightarrow> atob (stego_data r) \<noteq> None)
     \<and> containerFile s \<noteq> None \<and> dataFile s \<noteq> None"

definition extract_completes :: "extract_op \<Rightarrow> extract_env \<Rightarrow> app \<Rightarrow> bool" where
  "extract_completes op env s \<longleftrightarrow>
     stego_readable env \<and> xop_signal op \<notin> aborted s
     \<and> (case service_payload (extract_exchange env) of
           None \<Rightarrow> False
         | Some r \<Rightarrow> atob (extracted_data r) \<noteq> None)"

section \<open>Auxiliary definitions for the proofs\<close>

text \<open>
  The sextets and the padding that \<open>base64_encode\<close> emits, apart from each other, and a
  small session for the concrete runs: a guest with no stored data, the method \<open>lsb\<close>
  selected and the three-byte file \<open>a.png\<close> chosen in every slot, and a service that
  answers with the base64 text \<open>TWFu\<close>.
\<close>

fun digits :: "8 word list \<Rightarrow> nat list" where
  "digits [] = []"
| "digits [a] = (let n = unat a * 65536 in [n div 262144 mod 64, n div 4096 mod 64])"
| "digits [a, b] =
     (let n = unat a * 65536 + unat b * 256
      in [n div 262144 mod 64, n div 4096 mod 64, n div 64 mod 64])"
| "digits (a # b # c # r) =
     (let n = unat a * 65536 + unat b * 256 + unat c
      in [n div 262144 mod 64, n div 4096 mod 64, n div 64 mod 64, n mod 64] @ digits r)"

fun padding :: "8 word list \<Rightarrow> string" where
  "padding [] = []"
| "padding [a] = ''==''"
| "padding [a, b] = ''=''"
| "padding (a # b # c # r) = padding r"

definition sample_file :: jsfile where
  "sample_file =
     \<lparr>file_name = [97, 46, 112, 110, 103], file_type = ''image/png'',
      file_bytes = [77, 97, 110]\<rparr>"

definition guest :: app where
  "guest =
     (constructor None None None (Some True))
       \<lparr>currentMethod := Some ''lsb'', containerFile := Some sample_file,
        dataFile := Some sample_file, extractFile := Some sample_file\<rparr>"

definition hide_ok :: hide_env where
  "hide_ok =
     \<lparr>container_readable = True, data_readable = True,
      hide_exchange = Responded 200 (Some (ServiceSuccess \<lparr>stego_data = ''TWFu''\<rparr>))\<rparr>"

definition extract_ok :: extract_env where
  "extract_ok =
     \<lparr>stego_readable = True,
      extract_exchange = Responded 200 (Some (ServiceSuccess
        \<lparr>extracted_data = ''TWFu'', original_filename = ''a.txt'', file_extension = ''txt''\<rparr>))\<rparr>"

definition hide_op0 :: hide_op where
  "hide_op0 =
     \<lparr>op_container = sample_file, op_data = sample_file, op_password = [], op_signal = 0\<rparr>"

definition extract_op0 :: extract_op where
  "extract_op0 = \<lparr>xop_stego = sample_file, xop_password = [], xop_signal = 0\<rparr>"

text \<open>
  A returning user whose stored counters stand at five operations, signed in with the
  avatar shown, and a reply of \<open>/api/user\<close> for a signed-in user whose remote profile is
  still empty.
\<close>

definition returning :: app where
  "returning =
     (constructor (Some \<lparr>filesProcessed = 5, dataHidden = 0, successfulOperations = 5\<rparr>)
        None None (Some False))
       \<lparr>extractFile := Some sample_file\<rparr>"

definition empty_profile :: "user_reply option" where
  "empty_profile =
     Some \<lparr>logged_in = True, has_picture = True,
           user_stats = Some (\<lparr>filesProcessed = 0, dataHidden = 0, successfulOperations = 0\<rparr>, None)\<rparr>"

text \<open>
  Two more replies of \<open>/api/user\<close>: a user who is logged in and has no picture, and a
  visitor who is not logged in. A service that answers with status 500.
\<close>

definition no_picture_profile :: "user_reply option" where
  "no_picture_profile = Some \<lparr>logged_in = True, has_picture = False, user_stats = None\<rparr>"

definition visitor_reply :: "user_reply option" where
  "visitor_reply = Some \<lparr>logged_in = False, has_picture = False, user_stats = None\<rparr>"

definition extract_http_500 :: extract_env where
  "extract_http_500 = \<lparr>stego_readable = True, extract_exchange = Responded 500 None\<rparr>"

section \<open>Round trip of the binary codec\<close>

text \<open>
  The encoder's output is the sextets' characters followed by the padding; the decoder
  strips the padding, maps the characters back to the sextets and regroups them into the
  bytes. The arithmetic on 24-bit groups is done by hand: the constants are too large for
  the decision procedures.
\<close>

lemma b64char_mod: "b64char (i mod 64) = b64char i"
  by (simp add: b64char_def)

lemma dm256:
  fixes m c :: nat
  assumes "c < 256"
  shows "(m * 256 + c) div 256 = m" and "(m * 256 + c) mod 256 = c"
  using assms by simp_all

lemma bytes3:
  fixes a b c :: nat
  assumes "b < 256" "c < 256"
  shows "(a * 65536 + b * 256 + c) div 65536 = a"
    and "(a * 65536 + b * 256 + c) div 256 mod 256 = b"
    and "(a * 65536 + b * 256 + c) mod 256 = c"
proof -
  have e: "a * 65536 + b * 256 + c = (a * 256 + b) * 256 + c" by simp
  have d: "(a * 65536 + b * 256 + c) div 256 = a * 256 + b"
    by (simp only: e dm256(1)[OF assms(2)])
  show "(a * 65536 + b * 256 + c) div 256 mod 256 = b"
    by (simp only: d dm256(2)[OF assms(1)])
  show "(a * 65536 + b * 256 + c) mod 256 = c"
    by (simp only: e dm256(2)[OF assms(2)])
  have "(a * 65536 + b * 256 + c) div 65536 = (a * 65536 + b * 256 + c) div 256 div 256"
    by (simp add: div_mult2_eq)
  also have "\<dots> = a" by (simp only: d dm256(1)[OF assms(1)])
  finally show "(a * 65536 + b * 256 + c) div 65536 = a" .
qed


lemma dm64:
  fixes m c :: nat
  shows "m div 64 * 64 + m mod 64 = m"
  by simp

lemma digits4:
  fixes n :: nat
  assumes "n < 16777216"
  shows "((n div 262144 mod 64 * 64 + n div 4096 mod 64) * 64 + n div 64 mod 64) * 64 + n mod 64 = n"
proof -
  have a: "n div 4096 = n div 64 div 64" and b: "n div 262144 = n div 64 div 64 div 64"
    by (simp_all add: div_mult2_eq)
  have c: "n div 262144 < 64" using assms by (simp add: less_mult_imp_div_less)
  then have c': "n div 262144 mod 64 = n div 64 div 64 div 64" by (simp add: b)
  have "((n div 262144 mod 64 * 64 + n div 4096 mod 64) * 64 + n div 64 mod 64) * 64 + n mod 64
      = ((n div 64 div 64 div 64 * 64 + n div 64 div 64 mod 64) * 64 + n div 64 mod 64) * 64 + n mod 64"
    by (simp only: c' a)
  also have "\<dots> = (n div 64 div 64 * 64 + n div 64 mod 64) * 64 + n mod 64"
    by (simp only: dm64)
  also have "\<dots> = n div 64 * 64 + n mod 64"
    by (simp only: dm64)
  also have "\<dots> = n" by (simp only: dm64)
  finally show ?thesis .
qed


lemma encode_shape: "base64_encode xs = map b64char (digits xs) @ padding xs"
proof (induction xs rule: base64_encode.induct)
  case 1
  show ?case by simp
next
  case (2 a)
  show ?case by (simp only: base64_encode.simps digits.simps padding.simps Let_def list.map b64char_mod append.simps)
next
  case (3 a b)
  show ?case by (simp only: base64_encode.simps digits.simps padding.simps Let_def list.map b64char_mod append.simps)
next
  case (4 a b c r)
  show ?case
    by (simp only: base64_encode.simps digits.simps padding.simps Let_def list.map b64char_mod
        append.simps map_append "4.IH" append_assoc)
qed


lemma find_index_of_nth:
  "distinct xs \<Longrightarrow> k < length xs \<Longrightarrow> find_index_of (xs ! k) xs = Some k"
proof (induction xs arbitrary: k)
  case Nil
  then show ?case by simp
next
  case (Cons x xs)
  show ?case
  proof (cases k)
    case 0
    then show ?thesis by simp
  next
    case (Suc j)
    with Cons.prems have "xs ! j \<noteq> x" "distinct xs" "j < length xs" by auto
    with Cons.IH[of j] Suc show ?thesis by simp
  qed
qed

lemma distinct_b64chars: "distinct b64chars"
  by (simp add: b64chars_def)

lemma length_b64chars: "length b64chars = 64"
  by (simp add: b64chars_def)

lemma b64value_b64char: "b64value (b64char i) = Some (i mod 64)"
  unfolding b64value_def b64char_def
  by (rule find_index_of_nth[OF distinct_b64chars]) (simp add: length_b64chars)

lemma byte_bound: "unat (a :: 8 word) < 256"
  using unsigned_less[of a, where 'a = nat] by simp


lemma cancel64: "(k::nat) * 64 = m * 64 \<Longrightarrow> k = m"
  by simp

lemma div_cancel: "(m::nat) * 16 div 16 = m" "(m::nat) * 4 div 4 = m"
  by simp_all

lemma decode1:
  fixes a :: nat
  assumes "a < 256"
  shows "((a * 65536) div 262144 mod 64 * 64 + (a * 65536) div 4096 mod 64) div 16 = a"
proof -
  let ?n = "a * 65536"
  let ?k = "?n div 262144 mod 64 * 64 + ?n div 4096 mod 64"
  have n: "?n < 16777216" using assms by simp
  have z1: "?n mod 64 = 0" by simp
  have z2: "?n div 64 mod 64 = 0" by simp
  from digits4[OF n] have "?k * 64 * 64 = ?n"
    by (simp only: z1 z2 add_0_right)
  moreover have "?n = a * 16 * 64 * 64" by simp
  ultimately have "?k * 64 * 64 = a * 16 * 64 * 64" by (rule trans)
  then have "?k * 64 = a * 16 * 64" by (rule cancel64)
  then have k: "?k = a * 16" by (rule cancel64)
  show ?thesis by (simp only: k div_cancel)
qed

lemma decode2:
  fixes a b :: nat
  assumes "a < 256" "b < 256"
  shows "((((a * 65536 + b * 256) div 262144 mod 64 * 64 + (a * 65536 + b * 256) div 4096 mod 64) * 64
            + (a * 65536 + b * 256) div 64 mod 64) div 4) = a * 256 + b"
proof -
  let ?n = "a * 65536 + b * 256"
  let ?k = "(?n div 262144 mod 64 * 64 + ?n div 4096 mod 64) * 64 + ?n div 64 mod 64"
  have n: "?n < 16777216" using assms by simp
  have e: "?n = (a * 256 + b) * 4 * 64" by simp
  then have z1: "?n mod 64 = 0" by (metis mod_mult_self2_is_0)
  from digits4[OF n] have "?k * 64 = ?n"
    by (simp only: z1 add_0_right)
  with e have "?k * 64 = (a * 256 + b) * 4 * 64" by (rule trans[rotated])
  then have k: "?k = (a * 256 + b) * 4" by (rule cancel64)
  show ?thesis by (simp only: k div_cancel)
qed

lemma decode_digits: "decode_sextets (digits xs) = map unat xs"
proof (induction xs rule: digits.induct)
  case 1
  show ?case by simp
next
  case (2 a)
  show ?case
    by (simp only: digits.simps decode_sextets.simps Let_def decode1[OF byte_bound] list.map)
next
  case (3 a b)
  have "decode_sextets (digits [a, b]) = [(unat a * 256 + unat b) div 256, (unat a * 256 + unat b) mod 256]"
    by (simp only: digits.simps decode_sextets.simps Let_def decode2[OF byte_bound byte_bound])
  then show ?case by (simp only: dm256[OF byte_bound] list.map)
next
  case (4 a b c r)
  let ?n = "unat a * 65536 + unat b * 256 + unat c"
  have n: "?n < 16777216"
    using byte_bound[of a] byte_bound[of b] byte_bound[of c] by linarith
  have "decode_sextets (digits (a # b # c # r))
      = [?n div 65536, ?n div 256 mod 256, ?n mod 256] @ decode_sextets (digits r)"
    by (simp only: digits.simps decode_sextets.simps Let_def append.simps digits4[OF n])
  then show ?case
    by (simp only: bytes3[OF byte_bound byte_bound] "4.IH" list.map append.simps)
qed


lemma b64chars_plain:
  "\<forall>c \<in> set b64chars. \<not> ascii_whitespace c \<and> c \<noteq> CHR ''='' \<and> c \<noteq> CHR '',''"
  by (simp add: b64chars_def ascii_whitespace_def)

lemma b64char_in: "b64char i \<in> set b64chars"
  unfolding b64char_def by (rule nth_mem) (simp add: length_b64chars)

lemma b64char_plain:
  "\<not> ascii_whitespace (b64char i)" "b64char i \<noteq> CHR ''=''" "b64char i \<noteq> CHR '',''"
  "CHR ''='' \<noteq> b64char i" "CHR '','' \<noteq> b64char i"
  using b64chars_plain b64char_in[of i] by metis+

lemma padding_cases: "padding xs = [] \<or> padding xs = ''='' \<or> padding xs = ''==''"
  by (induction xs rule: padding.induct) simp_all

lemma padding_plain:
  assumes "c \<in> set (padding xs)"
  shows "\<not> ascii_whitespace c" and "c \<noteq> CHR '',''"
  using assms padding_cases[of xs] by (auto simp: ascii_whitespace_def)

lemma encode_no_whitespace:
  "filter (\<lambda>c. \<not> ascii_whitespace c) (base64_encode xs) = base64_encode xs"
  by (rule filter_True) (auto simp: encode_shape b64char_plain dest: padding_plain(1))

lemma encode_no_comma: "CHR '','' \<notin> set (base64_encode xs)"
  using padding_plain(2)[of "CHR '',''" xs] by (auto simp: encode_shape b64char_plain)

lemma length_encode: "length (base64_encode xs) mod 4 = 0"
  by (induction xs rule: base64_encode.induct) (simp_all add: Let_def)

lemma length_digits: "length (digits xs) mod 4 \<noteq> 1"
  by (induction xs rule: digits.induct) (simp_all add: Let_def)

lemma strip_padding_body:
  assumes "CHR ''='' \<notin> set ys"
    and "length (ys @ p) mod 4 = 0"
    and "p = [] \<or> p = ''='' \<or> p = ''==''"
  shows "strip_padding (ys @ p) = ys"
proof -
  consider "p = []" | "p = ''=''" | "p = ''==''" using assms(3) by blast
  then show ?thesis
  proof cases
    case 1
    show ?thesis
    proof (cases ys rule: rev_cases)
      case Nil
      then show ?thesis using 1 by (simp add: strip_padding_def)
    next
      case (snoc zs x)
      then have "x \<noteq> CHR ''=''" using assms(1) by auto
      then show ?thesis using 1 snoc by (simp add: strip_padding_def split: list.splits)
    qed
  next
    case 2
    then have "ys \<noteq> []" using assms(2) by auto
    then obtain zs y where r: "ys = zs @ [y]" by (cases ys rule: rev_cases) auto
    then have "y \<noteq> CHR ''=''" using assms(1) by auto
    then show ?thesis using 2 r assms(2) by (simp add: strip_padding_def)
  next
    case 3
    then show ?thesis using assms(2) by (simp add: strip_padding_def split: list.splits)
  qed
qed

lemma those_Some: "those (map Some ys) = Some ys"
  by (induction ys) simp_all

lemma digits_reduced: "map (\<lambda>i. i mod 64) (digits xs) = digits xs"
  by (induction xs rule: digits.induct) (simp_all only: digits.simps Let_def list.map map_append mod_mod_trivial)

lemma values_of_body: "those (map b64value (map b64char (digits xs))) = Some (digits xs)"
proof -
  have "map b64value (map b64char (digits xs)) = map Some (map (\<lambda>i. i mod 64) (digits xs))"
    by (simp add: b64value_b64char)
  then show ?thesis by (simp only: digits_reduced those_Some)
qed

lemma atob_encode: "atob (base64_encode xs) = Some (map unat xs)"
proof -
  have eq: "CHR ''='' \<notin> set (map b64char (digits xs))"
    by (auto simp: b64char_plain)
  have len: "length (map b64char (digits xs) @ padding xs) mod 4 = 0"
    using length_encode[of xs] by (simp only: encode_shape)
  have strip: "strip_padding (base64_encode xs) = map b64char (digits xs)"
    unfolding encode_shape by (rule strip_padding_body[OF eq len padding_cases])
  have l: "length (map b64char (digits xs)) mod 4 \<noteq> 1"
    using length_digits[of xs] by simp
  show ?thesis
    unfolding atob_def encode_no_whitespace strip Let_def
    using l by (simp only: values_of_body decode_digits if_False option.map)
qed


lemma concat_byteArrays: "concat (byteArrays s offset) = map of_nat (drop offset s)"
proof (induction s offset rule: byteArrays.induct)
  case (1 s offset)
  show ?case
  proof (cases "offset < length s")
    case True
    have "take 8192 (drop offset s) @ drop (offset + 8192) s = drop offset s"
      by (metis add.commute append_take_drop_id drop_drop)
    then have "map of_nat (take 8192 (drop offset s)) @ map of_nat (drop (offset + 8192) s)
                 = (map of_nat (drop offset s) :: 8 word list)"
      by (metis map_append)
    with True "1.IH" show ?thesis by (subst byteArrays.simps) simp
  next
    case False
    then show ?thesis by (subst byteArrays.simps) simp
  qed
qed

lemma bytes_of_codes: "map of_nat (map unat xs) = (xs :: 8 word list)"
  by (induction xs) simp_all

lemma split_js_plain: "sep \<notin> set xs \<Longrightarrow> split_js sep xs = [xs]"
  by (induction xs) auto

lemma split_js_first:
  "sep \<notin> set xs \<Longrightarrow> split_js sep (xs @ sep # ys) = xs # split_js sep ys"
  by (induction xs) auto

lemma fileToBase64_text:
  assumes "CHR '','' \<notin> set (file_type f)"
  shows "fileToBase64 True f = Inr (Some (base64_encode (file_bytes f)))"
proof -
  let ?pre = "''data:'' @ file_type f @ '';base64''"
  let ?body = "base64_encode (file_bytes f)"
  have "CHR '','' \<notin> set ?pre"
    using assms by simp
  then have "split_js CHR '','' (?pre @ CHR '','' # ?body) = ?pre # split_js CHR '','' ?body"
    by (rule split_js_first)
  also have "split_js CHR '','' ?body = [?body]"
    by (rule split_js_plain[OF encode_no_comma])
  finally have "index1 (split_js CHR '','' (?pre @ CHR '','' # ?body)) = Some ?body"
    by (simp only: index1_def list.case)
  moreover have "readAsDataURL f = ?pre @ CHR '','' # ?body"
    by (simp add: readAsDataURL_def)
  ultimately show ?thesis by (simp only: fileToBase64_def if_True)
qed

lemma fileToBase64Chunked_same: "fileToBase64Chunked r f = fileToBase64 r f"
  by (simp add: fileToBase64Chunked_def fileToBase64_def Let_def)

lemma base64ToBlob_encode:
  "base64ToBlob (base64_encode xs) m = Inr \<lparr>blob_bytes = xs, blob_type = m\<rparr>"
  by (simp only: base64ToBlob_def atob_encode concat_byteArrays bytes_of_codes option.case drop_0)

text \<open>
  C1. For a file of more than 0 and at most 50 MiB whose media type contains no comma (no
  media type does: the comma is not a token character of RFC 2045), \<open>fileToBase64\<close> and
  \<open>fileToBase64Chunked\<close> resolve with a text from which \<open>base64ToBlob\<close> builds a blob
  of exactly the file's bytes, in order.
\<close>

theorem base64_roundtrip:
  assumes "0 < file_size f" and "file_size f \<le> MAX_FILE_SIZE"
    and "CHR '','' \<notin> set (file_type f)"
  shows "\<exists>t. fileToBase64 True f = Inr (Some t)
           \<and> fileToBase64Chunked True f = Inr (Some t)
           \<and> base64ToBlob t m = Inr \<lparr>blob_bytes = file_bytes f, blob_type = m\<rparr>"
  by (intro exI[of _ "base64_encode (file_bytes f)"] conjI)
     (simp_all only: fileToBase64Chunked_same fileToBase64_text[OF assms(3)] base64ToBlob_encode)

theorem base64_roundtrip_witness:
  "fileToBase64 True sample_file = Inr (Some ''TWFu'')
   \<and> base64ToBlob ''TWFu'' ''image/png''
       = Inr \<lparr>blob_bytes = [77, 97, 110], blob_type = ''image/png''\<rparr>"
proof -
  have e: "fileToBase64 True sample_file = Inr (Some ''TWFu'')"
    by (simp add: fileToBase64_def readAsDataURL_def index1_def b64char_def b64chars_def
        sample_file_def)
  have "0 < file_size sample_file" "file_size sample_file \<le> MAX_FILE_SIZE"
    "CHR '','' \<notin> set (file_type sample_file)"
    by (simp_all add: file_size_def MAX_FILE_SIZE_def sample_file_def)
  from base64_roundtrip[OF this, of "''image/png''"] e show ?thesis
    by (simp add: sample_file_def)
qed

section \<open>Frame lemmas of the controller and the ledger\<close>

text \<open>
  What each handler leaves alone. The exit \<open>Cancelled\<close> is never taken: every error that
  leaves \<open>hideData\<close>, \<open>extractData\<close> or \<open>base64ToBlob\<close> is a new \<open>Error\<close>, and the
  only other one is a \<open>TypeError\<close>.
\<close>

lemma fold_unlock:
  "fold (\<lambda>a t. showAchievement a (t\<lparr>achievements := achievements t @ [a]\<rparr>)) new s
     = s\<lparr>achievements := achievements s @ new,
          toasts := toasts s @ map (\<lambda>a. \<lparr>toast_message = MsgAchievement a, toast_type = ToastSuccess\<rparr>) new\<rparr>"
  by (induction new arbitrary: s) (simp_all add: showAchievement_def showToast_def)

lemma checkAchievements_eq:
  "checkAchievements s =
     (let new = newAchievements s;
          s1 = s\<lparr>achievements := achievements s @ new,
                 toasts := toasts s @ map (\<lambda>a. \<lparr>toast_message = MsgAchievement a, toast_type = ToastSuccess\<rparr>) new\<rparr>
      in if new \<noteq> [] then saveStatsToCloud (saveAchievements s1) else s1)"
  by (simp add: checkAchievements_def fold_unlock Let_def)

lemma checkAchievements_frame:
  "stats (checkAchievements s) = stats s"
  "anonOperationCount (checkAchievements s) = anonOperationCount s"
  "stored_anon_ops (checkAchievements s) = stored_anon_ops s"
  "navAvatarHidden (checkAchievements s) = navAvatarHidden s"
  "objectURLs (checkAchievements s) = objectURLs s"
  "blobStore (checkAchievements s) = blobStore s"
  "aborted (checkAchievements s) = aborted s"
  "currentOperationController (checkAchievements s) = currentOperationController s"
  "achievements (checkAchievements s) = achievements s @ newAchievements s"
  by (simp_all add: checkAchievements_eq Let_def saveStatsToCloud_def saveAchievements_def)

lemma updateStats_frame:
  "anonOperationCount (updateStatsAfterOperation operation n s) = anonOperationCount s"
  "stored_anon_ops (updateStatsAfterOperation operation n s) = stored_anon_ops s"
  "navAvatarHidden (updateStatsAfterOperation operation n s) = navAvatarHidden s"
  "objectURLs (updateStatsAfterOperation operation n s) = objectURLs s"
  "blobStore (updateStatsAfterOperation operation n s) = blobStore s"
  "aborted (updateStatsAfterOperation operation n s) = aborted s"
  "achievements (updateStatsAfterOperation operation n s) = achievements s"
  "currentOperationController (updateStatsAfterOperation operation n s) = currentOperationController s"
  "filesProcessed (stats (updateStatsAfterOperation operation n s)) = filesProcessed (stats s) + 1"
  by (simp_all add: updateStatsAfterOperation_def Let_def saveStatsToCloud_def saveStats_def)

lemma upd_stats_le: "0 \<le> n \<Longrightarrow> stats_le (stats s) (stats (updateStatsAfterOperation operation n s))"
  by (simp add: updateStatsAfterOperation_def stats_le_def saveStats_def saveStatsToCloud_def Let_def)

lemma isUserLoggedIn_cong: "navAvatarHidden t = navAvatarHidden s \<Longrightarrow> isUserLoggedIn t = isUserLoggedIn s"
  by (simp add: isUserLoggedIn_def)

lemmas settle_defs = startHiding_settle_def startExtracting_settle_def hideData_def extractData_def
  startHiding_catch_def startExtracting_catch_def showResults_hide_def showResults_extract_def
  createTrackedObjectURL_def count_anonymous_def showToast_def Let_def

lemma exchange_aborted:
  "signal \<in> aborted s \<Longrightarrow>
     exchange_result signal ex s = Inl \<lparr>err_name = ''AbortError'', err_message = MsgBrowser\<rparr>"
  by (simp add: exchange_result_def)

lemma settle_hide_aborted:
  assumes "op_signal op \<in> aborted s"
  shows "fst (startHiding_settle op env s) = Failed"
    and "stats (snd (startHiding_settle op env s)) = stats s"
    and "objectURLs (snd (startHiding_settle op env s)) = objectURLs s"
    and "\<exists>m. toasts (snd (startHiding_settle op env s))
            = toasts s @ [\<lparr>toast_message = MsgHideFailed (MsgHideData m), toast_type = ToastError\<rparr>]"
  using assms
  by (auto simp: settle_defs exchange_aborted split: sum.splits option.splits prod.splits)

lemma settle_extract_aborted:
  assumes "xop_signal op \<in> aborted s"
  shows "fst (startExtracting_settle op env s) = Failed"
    and "stats (snd (startExtracting_settle op env s)) = stats s"
    and "objectURLs (snd (startExtracting_settle op env s)) = objectURLs s"
    and "\<exists>m. toasts (snd (startExtracting_settle op env s))
            = toasts s @ [\<lparr>toast_message = MsgExtractFailed (MsgExtractData m), toast_type = ToastError\<rparr>]"
  using assms
  by (auto simp: settle_defs exchange_aborted split: sum.splits option.splits prod.splits)

lemma start_frame:
  "anonOperationCount (snd (startHiding pw s)) = anonOperationCount s"
  "anonOperationCount (snd (startExtracting pw s)) = anonOperationCount s"
  "anonOperationCount (cancelOperation s) = anonOperationCount s"
  "stats (snd (startHiding pw s)) = stats s"
  "stats (snd (startExtracting pw s)) = stats s"
  "stats (cancelOperation s) = stats s"
  "achievements (snd (startHiding pw s)) = achievements s"
  "achievements (snd (startExtracting pw s)) = achievements s"
  "achievements (cancelOperation s) = achievements s"
  "objectURLs (snd (startHiding pw s)) = objectURLs s"
  "objectURLs (snd (startExtracting pw s)) = objectURLs s"
  "objectURLs (cancelOperation s) = objectURLs s"
  by (simp_all add: startHiding_def startExtracting_def cancelOperation_def showLoginPrompt_def
      showToast_def Let_def split: option.splits)


lemma base64ToBlob_error: "base64ToBlob b m = Inl e \<Longrightarrow> err_name e = ''Error''"
  by (auto simp: base64ToBlob_def split: option.splits)

lemma settle_not_cancelled:
  "fst (startHiding_settle op env s) \<noteq> Cancelled"
  "fst (startExtracting_settle xop xenv s) \<noteq> Cancelled"
  by (auto simp: settle_defs split: sum.splits option.splits prod.splits dest!: base64ToBlob_error)

text \<open>
  The avatar is shown only for a profile with a picture: a signed-in user without one is
  taken for a guest by \<open>isUserLoggedIn\<close>.
\<close>

lemma signed_in_without_picture:
  "navAvatarHidden s \<noteq> None \<Longrightarrow>
     \<not> isUserLoggedIn
         (loadGoogleUser (Some \<lparr>logged_in = True, has_picture = False, user_stats = st\<rparr>) s)"
  by (auto simp: loadGoogleUser_def isUserLoggedIn_def saveStats_def saveAchievements_def Let_def
      split: option.splits)

lemma blob_TWFu: "base64ToBlob ''TWFu'' m = Inr \<lparr>blob_bytes = [77, 97, 110], blob_type = m\<rparr>"
  by (simp add: base64ToBlob_def atob_def strip_padding_def ascii_whitespace_def b64value_def b64chars_def)

lemma read_sample: "fileToBase64Chunked True sample_file = Inr (Some ''TWFu'')"
  by (simp add: fileToBase64Chunked_def fileToBase64_def readAsDataURL_def index1_def
      b64char_def b64chars_def sample_file_def file_size_def)

lemma start_guest:
  "startHiding [] guest = (Started hide_op0, guest\<lparr>currentOperationController := Some 0, nextController := 1\<rparr>)"
  by (simp add: startHiding_def guest_def constructor_def isUserLoggedIn_def hide_op0_def)

section \<open>Counters along a trace\<close>

text \<open>
  Every event that does not assign \<open>this.stats\<close> leaves each counter of the stats at
  least as large as it was, and cannot unlock \<open>first_file\<close> once two files have been
  processed. An operation ends as succeeded exactly when nothing it meets fails, and only
  then, in a session that is not logged in, is it counted.
\<close>

lemma stats_le_refl: "stats_le a a"
  by (simp add: stats_le_def)

lemma stats_le_trans: "stats_le a b \<Longrightarrow> stats_le b c \<Longrightarrow> stats_le a c"
  by (auto simp: stats_le_def)

lemma settle_stats_le:
  "stats_le (stats s) (stats (snd (startHiding_settle op env s)))"
  "stats_le (stats s) (stats (snd (startExtracting_settle xop xenv s)))"
  by (auto simp: settle_defs checkAchievements_frame updateStatsAfterOperation_def stats_le_def
      saveStats_def saveStatsToCloud_def split: sum.splits option.splits prod.splits)

lemma revoke_frame:
  "stats (revokeTrackedObjectURL u s) = stats s"
  "achievements (revokeTrackedObjectURL u s) = achievements s"
  by (simp_all add: revokeTrackedObjectURL_def)

lemma loadGoogleUser_stats_eq:
  "stats (loadGoogleUser reply s)
     = (case navAvatarHidden s of
          None \<Rightarrow> stats s
        | Some _ \<Rightarrow>
           (case reply of
              None \<Rightarrow> stats s
            | Some user \<Rightarrow>
                if logged_in user
                then (case user_stats user of None \<Rightarrow> stats s | Some (st, ach) \<Rightarrow> st)
                else stats s))"
  by (simp add: loadGoogleUser_def saveStats_def saveAchievements_def Let_def
      split: option.split prod.split)

lemma loadGoogleUser_achievements_eq:
  "achievements (loadGoogleUser reply s)
     = (case navAvatarHidden s of
          None \<Rightarrow> achievements s
        | Some _ \<Rightarrow>
           (case reply of
              None \<Rightarrow> achievements s
            | Some user \<Rightarrow>
                if logged_in user
                then (case user_stats user of
                        None \<Rightarrow> achievements s
                      | Some (st, ach) \<Rightarrow> (case ach of Some a \<Rightarrow> a | None \<Rightarrow> []))
                else achievements s))"
  by (simp add: loadGoogleUser_def saveStats_def saveAchievements_def Let_def
      split: option.split prod.split)

lemma loadGoogleUser_stats:
  "stats (loadGoogleUser None s) = stats s"
  "navAvatarHidden s \<noteq> None \<Longrightarrow> logged_in user \<Longrightarrow> user_stats user = Some (st, ach)
     \<Longrightarrow> stats (loadGoogleUser (Some user) s) = st"
  "navAvatarHidden s = None \<or> \<not> logged_in user \<or> user_stats user = None
     \<Longrightarrow> stats (loadGoogleUser (Some user) s) = stats s"
  by (auto simp: loadGoogleUser_stats_eq split: option.split)

lemma loadGoogleUser_keeps:
  assumes "\<not> replaces_stats (EvLoadGoogleUser reply) s"
  shows "stats (loadGoogleUser reply s) = stats s"
    and "achievements (loadGoogleUser reply s) = achievements s"
  using assms
  by (cases reply; auto simp: loadGoogleUser_stats_eq loadGoogleUser_achievements_eq
        split: option.split)+

lemma step_stats_le: "\<not> replaces_stats e s \<Longrightarrow> stats_le (stats s) (stats (step e s))"
  by (cases e)
     (simp_all add: settle_stats_le start_frame checkAchievements_frame revoke_frame
       loadGoogleUser_keeps stats_le_refl)

lemma run_stats_le: "keeps_stats es s \<Longrightarrow> stats_le (stats s) (stats (run es s))"
proof (induction es arbitrary: s)
  case Nil
  show ?case by (simp add: run_def stats_le_refl)
next
  case (Cons e es)
  then have "stats_le (stats s) (stats (step e s))" by (simp add: step_stats_le)
  moreover have "stats_le (stats (step e s)) (stats (run es (step e s)))"
    using Cons by simp
  ultimately have "stats_le (stats s) (stats (run es (step e s)))"
    by (rule stats_le_trans)
  then show ?case by (simp add: run_def)
qed

lemma first_file_new:
  "''first_file'' \<in> set (newAchievements s)
     \<longleftrightarrow> filesProcessed (stats s) = 1 \<and> ''first_file'' \<notin> set (achievements s)"
  by (simp add: newAchievements_def hasAchievement_def Let_def)

lemma settle_first_file:
  assumes "2 \<le> filesProcessed (stats s)" and "''first_file'' \<notin> set (achievements s)"
  shows "''first_file'' \<notin> set (achievements (snd (startHiding_settle op env s)))"
    and "''first_file'' \<notin> set (achievements (snd (startExtracting_settle xop xenv s)))"
  using assms
  by (auto simp: settle_defs checkAchievements_frame updateStats_frame first_file_new
      split: sum.splits option.splits prod.splits)

lemma step_first_file:
  assumes "2 \<le> filesProcessed (stats s)" and "''first_file'' \<notin> set (achievements s)"
    and "\<not> replaces_stats e s"
  shows "''first_file'' \<notin> set (achievements (step e s))"
  using assms
  by (cases e)
     (simp_all add: settle_first_file start_frame checkAchievements_frame revoke_frame
       loadGoogleUser_keeps first_file_new)

lemma run_first_file:
  assumes "2 \<le> filesProcessed (stats s)" and "''first_file'' \<notin> set (achievements s)"
    and "keeps_stats es s"
  shows "''first_file'' \<notin> set (achievements (run es s))"
  using assms
proof (induction es arbitrary: s)
  case Nil
  then show ?case by (simp add: run_def)
next
  case (Cons e es)
  have e: "\<not> replaces_stats e s" and k: "keeps_stats es (step e s)"
    using Cons.prems(3) by simp_all
  have "stats_le (stats s) (stats (step e s))" using e by (rule step_stats_le)
  then have "2 \<le> filesProcessed (stats (step e s))"
    using Cons.prems(1) by (simp add: stats_le_def)
  moreover have "''first_file'' \<notin> set (achievements (step e s))"
    using Cons.prems(1,2) e by (rule step_first_file)
  ultimately have "''first_file'' \<notin> set (achievements (run es (step e s)))"
    using Cons.IH k by simp
  then show ?case by (simp add: run_def)
qed

lemma settle_hide_count:
  "anonOperationCount (snd (startHiding_settle op env s))
     = anonOperationCount s
       + (if fst (startHiding_settle op env s) = Succeeded \<and> \<not> isUserLoggedIn s then 1 else 0)"
  by (auto simp: startHiding_settle_def hideData_def startHiding_catch_def showResults_hide_def
      createTrackedObjectURL_def count_anonymous_def showToast_def Let_def
      checkAchievements_frame updateStats_frame isUserLoggedIn_def
      split: sum.splits option.splits prod.splits if_splits)


lemma settle_extract_count:
  "anonOperationCount (snd (startExtracting_settle op env s))
     = anonOperationCount s
       + (if fst (startExtracting_settle op env s) = Succeeded \<and> \<not> isUserLoggedIn s then 1 else 0)"
  by (auto simp: settle_defs checkAchievements_frame updateStats_frame isUserLoggedIn_def
      split: sum.splits option.splits prod.splits if_splits)


lemma settle_guest_hide:
  "fst (startHiding_settle hide_op0 hide_ok (guest\<lparr>currentOperationController := Some 0, nextController := 1\<rparr>)) = Succeeded"
  by (simp add: settle_defs read_sample hide_op0_def hide_ok_def exchange_result_def blob_TWFu
      guest_def constructor_def)


lemma fileToBase64Chunked_readable:
  "fileToBase64Chunked r f
     = (if r then Inr (index1 (split_js CHR '','' (readAsDataURL f)))
        else Inl \<lparr>err_name = ''Error'', err_message = MsgReadFailed\<rparr>)"
  by (simp add: fileToBase64Chunked_def fileToBase64_def Let_def)

lemma exchange_result_aborted_only:
  "aborted t = aborted s \<Longrightarrow> exchange_result c ex t = exchange_result c ex s"
  by (simp add: exchange_result_def)

lemma exchange_result_Inr:
  "exchange_result c ex s = Inr r \<longleftrightarrow> c \<notin> aborted s \<and> service_payload ex = Some r"
  by (cases ex)
     (auto simp: exchange_result_def service_payload_def
       split: option.split service_reply.split)

lemma exchange_result_is_error:
  assumes "c \<in> aborted s \<or> service_payload ex = None"
  shows "\<exists>e. exchange_result c ex s = Inl e"
proof (cases "exchange_result c ex s")
  case (Inl e)
  then show ?thesis by blast
next
  case (Inr r)
  then have "c \<notin> aborted s \<and> service_payload ex = Some r"
    using exchange_result_Inr[of c ex s r] by blast
  with assms show ?thesis by auto
qed

lemma base64ToBlob_cases:
  "base64ToBlob t m
     = (case atob t of
          None \<Rightarrow> Inl \<lparr>err_name = ''Error'', err_message = MsgDecodeFailed MsgBrowser\<rparr>
        | Some bs \<Rightarrow> Inr \<lparr>blob_bytes = concat (byteArrays bs 0), blob_type = m\<rparr>)"
  by (simp add: base64ToBlob_def)

lemma settle_hide_succeeds:
  "fst (startHiding_settle op env s) = Succeeded \<longleftrightarrow> hide_completes op env s"
proof (cases "op_signal op \<in> aborted s \<or> service_payload (hide_exchange env) = None")
  case True
  then obtain e where "exchange_result (op_signal op) (hide_exchange env) s = Inl e"
    using exchange_result_is_error by blast
  then have "fst (startHiding_settle op env s) = Failed"
    by (simp add: settle_defs fileToBase64Chunked_readable
        exchange_result_aborted_only[of "s\<lparr>fetchCalls := x\<rparr>" s for x])
  moreover have "\<not> hide_completes op env s"
    using True by (auto simp: hide_completes_def)
  ultimately show ?thesis by simp
next
  case False
  then obtain r where r: "service_payload (hide_exchange env) = Some r"
    and a: "op_signal op \<notin> aborted s" by auto
  then have x: "exchange_result (op_signal op) (hide_exchange env) s = Inr r"
    by (simp add: exchange_result_Inr)
  show ?thesis
    by (simp add: settle_defs fileToBase64Chunked_readable hide_completes_def r a x
        exchange_result_aborted_only[of "s\<lparr>fetchCalls := y\<rparr>" s for y]
        base64ToBlob_cases split: option.split)
qed


lemma settle_extract_succeeds:
  "fst (startExtracting_settle op env s) = Succeeded \<longleftrightarrow> extract_completes op env s"
proof (cases "xop_signal op \<in> aborted s \<or> service_payload (extract_exchange env) = None")
  case True
  then obtain e where "exchange_result (xop_signal op) (extract_exchange env) s = Inl e"
    using exchange_result_is_error by blast
  then have "fst (startExtracting_settle op env s) = Failed"
    by (simp add: settle_defs fileToBase64Chunked_readable
        exchange_result_aborted_only[of "s\<lparr>fetchCalls := x\<rparr>" s for x])
  moreover have "\<not> extract_completes op env s"
    using True by (auto simp: extract_completes_def)
  ultimately show ?thesis by simp
next
  case False
  then obtain r where r: "service_payload (extract_exchange env) = Some r"
    and a: "xop_signal op \<notin> aborted s" by auto
  then have x: "exchange_result (xop_signal op) (extract_exchange env) s = Inr r"
    by (simp add: exchange_result_Inr)
  show ?thesis
    by (simp add: settle_defs fileToBase64Chunked_readable extract_completes_def r a x
        exchange_result_aborted_only[of "s\<lparr>fetchCalls := y\<rparr>" s for y]
        base64ToBlob_cases split: option.split)
qed

lemma settle_outcome:
  "fst (startHiding_settle op env s) = (if hide_completes op env s then Succeeded else Failed)"
  "fst (startExtracting_settle xop xenv s)
     = (if extract_completes xop xenv s then Succeeded else Failed)"
  using settle_hide_succeeds[of op env s] settle_extract_succeeds[of xop xenv s]
    settle_not_cancelled(1)[of op env s] settle_not_cancelled(2)[of xop xenv s]
  by (cases "fst (startHiding_settle op env s)"; cases "fst (startExtracting_settle xop xenv s)";
      simp)+

lemma settle_count:
  "anonOperationCount (snd (startHiding_settle op env s))
     = anonOperationCount s
       + (if hide_completes op env s \<and> \<not> isUserLoggedIn s then 1 else 0)"
  "anonOperationCount (snd (startExtracting_settle xop xenv s))
     = anonOperationCount s
       + (if extract_completes xop xenv s \<and> \<not> isUserLoggedIn s then 1 else 0)"
  using settle_hide_count[of op env s] settle_extract_count[of xop xenv s]
  by (simp_all add: settle_hide_succeeds settle_extract_succeeds)


lemma counter_only_on_completion:
  "anonOperationCount (snd (startHiding_settle op env s))
     = anonOperationCount s
       + (if hide_completes op env s \<and> \<not> isUserLoggedIn s then 1 else 0)
   \<and> anonOperationCount (snd (startExtracting_settle xop xenv s))
     = anonOperationCount s
       + (if extract_completes xop xenv s \<and> \<not> isUserLoggedIn s then 1 else 0)
   \<and> anonOperationCount (snd (startHiding pw s)) = anonOperationCount s
   \<and> anonOperationCount (snd (startExtracting pw s)) = anonOperationCount s
   \<and> anonOperationCount (cancelOperation s) = anonOperationCount s"
  by (simp add: settle_count start_frame)

lemma failure_not_counted:
  "anonOperationCount (snd (startExtracting_settle xop extract_http_500 s)) = anonOperationCount s"
  "xop_signal xop \<in> aborted s
     \<Longrightarrow> anonOperationCount (snd (startExtracting_settle xop xenv s)) = anonOperationCount s"
  "\<not> stego_readable xenv
     \<Longrightarrow> anonOperationCount (snd (startExtracting_settle xop xenv s)) = anonOperationCount s"
  "op_signal op \<in> aborted s
     \<Longrightarrow> anonOperationCount (snd (startHiding_settle op env s)) = anonOperationCount s"
  "\<not> container_readable env \<or> \<not> data_readable env
     \<Longrightarrow> anonOperationCount (snd (startHiding_settle op env s)) = anonOperationCount s"
  by (auto simp: settle_count extract_completes_def hide_completes_def extract_http_500_def
      service_payload_def)

section \<open>Controllers\<close>

text \<open>
  The controllers known to a state are allocated before the next one: this holds of the
  constructor's state and is kept by every event. A start changes neither the aborted
  controllers nor the selected files, so it does not change how an operation in flight
  ends.
\<close>

lemma start_controllers:
  "nextController (snd (startHiding pw s)) \<ge> nextController s"
  "nextController (snd (startExtracting pw s)) \<ge> nextController s"
  "currentOperationController (snd (startHiding pw s)) = currentOperationController s
     \<or> (currentOperationController (snd (startHiding pw s)) = Some (nextController s)
         \<and> nextController (snd (startHiding pw s)) = Suc (nextController s))"
  "currentOperationController (snd (startExtracting pw s)) = currentOperationController s
     \<or> (currentOperationController (snd (startExtracting pw s)) = Some (nextController s)
         \<and> nextController (snd (startExtracting pw s)) = Suc (nextController s))"
  "aborted (snd (startHiding pw s)) = aborted s"
  "aborted (snd (startExtracting pw s)) = aborted s"
  "containerFile (snd (startHiding pw s)) = containerFile s"
  "containerFile (snd (startExtracting pw s)) = containerFile s"
  "dataFile (snd (startHiding pw s)) = dataFile s"
  "dataFile (snd (startExtracting pw s)) = dataFile s"
  "blobStore (snd (startHiding pw s)) = blobStore s"
  "blobStore (snd (startExtracting pw s)) = blobStore s"
  by (simp_all add: startHiding_def startExtracting_def showLoginPrompt_def showToast_def Let_def
      split: option.split)

lemma other_controllers:
  "aborted (checkAchievements s) = aborted s"
  "nextController (checkAchievements s) = nextController s"
  "currentOperationController (checkAchievements s) = currentOperationController s"
  "nextController (updateStatsAfterOperation operation n s) = nextController s"
  "aborted (revokeTrackedObjectURL u s) = aborted s"
  "nextController (revokeTrackedObjectURL u s) = nextController s"
  "currentOperationController (revokeTrackedObjectURL u s) = currentOperationController s"
  "aborted (logoutGoogle s) = aborted s"
  "nextController (logoutGoogle s) = nextController s"
  "currentOperationController (logoutGoogle s) = currentOperationController s"
  "aborted (loadGoogleUser reply s) = aborted s"
  "nextController (loadGoogleUser reply s) = nextController s"
  "currentOperationController (loadGoogleUser reply s) = currentOperationController s"
  by (simp_all add: checkAchievements_eq saveStats_def saveAchievements_def saveStatsToCloud_def
      updateStatsAfterOperation_def
      revokeTrackedObjectURL_def logoutGoogle_def loadGoogleUser_def showToast_def Let_def
      split: option.split prod.split)

lemma settle_controllers:
  "aborted (snd (startHiding_settle op env s)) = aborted s"
  "nextController (snd (startHiding_settle op env s)) = nextController s"
  "currentOperationController (snd (startHiding_settle op env s)) = None"
  "aborted (snd (startExtracting_settle xop xenv s)) = aborted s"
  "nextController (snd (startExtracting_settle xop xenv s)) = nextController s"
  "currentOperationController (snd (startExtracting_settle xop xenv s)) = None"
  by (auto simp: settle_defs checkAchievements_frame updateStats_frame other_controllers
      split: sum.splits option.splits prod.splits)


lemma controllers_allocated_constructor: "controllers_allocated (constructor st ach ops avatar)"
  by (simp add: controllers_allocated_def constructor_def)

lemma controllers_allocated_step:
  assumes "controllers_allocated s"
  shows "controllers_allocated (step e s)"
proof (cases e)
  case (EvStartHiding pw)
  show ?thesis
    using assms start_controllers(1)[of s pw] start_controllers(3)[of pw s] start_controllers(5)[of pw s]
    by (auto simp: EvStartHiding controllers_allocated_def split: option.splits)
next
  case (EvStartExtracting pw)
  show ?thesis
    using assms start_controllers(2)[of s pw] start_controllers(4)[of pw s] start_controllers(6)[of pw s]
    by (auto simp: EvStartExtracting controllers_allocated_def split: option.splits)
next
  case EvCancelOperation
  show ?thesis
    using assms
    by (auto simp: EvCancelOperation controllers_allocated_def cancelOperation_def
        split: option.splits)
qed (use assms in \<open>auto simp: controllers_allocated_def settle_controllers other_controllers
      split: option.splits\<close>)

lemma controllers_allocated_run:
  "controllers_allocated s \<Longrightarrow> controllers_allocated (run es s)"
  unfolding run_def
  by (induction es arbitrary: s) (simp_all add: controllers_allocated_step)


lemma start_keeps_outcome:
  "hide_completes op env (snd (startHiding pw s)) = hide_completes op env s"
  "hide_completes op env (snd (startExtracting pw s)) = hide_completes op env s"
  "extract_completes xop xenv (snd (startHiding pw s)) = extract_completes xop xenv s"
  "extract_completes xop xenv (snd (startExtracting pw s)) = extract_completes xop xenv s"
  by (simp_all add: hide_completes_def extract_completes_def start_controllers)

lemma started_hiding:
  assumes "fst (startHiding pw s) = Started op"
  shows "op_signal op = nextController s"
    and "currentOperationController (snd (startHiding pw s)) = Some (nextController s)"
  using assms
  by (auto simp: startHiding_def Let_def split: option.splits if_splits)

lemma started_extracting:
  assumes "fst (startExtracting pw s) = Started xop"
  shows "xop_signal xop = nextController s"
    and "currentOperationController (snd (startExtracting pw s)) = Some (nextController s)"
  using assms
  by (auto simp: startExtracting_def Let_def split: option.splits if_splits)

lemma cancel_aborts_current:
  "currentOperationController s = Some c \<Longrightarrow> aborted (cancelOperation s) = insert c (aborted s)"
  by (simp add: cancelOperation_def)

lemma allocated_fresh:
  assumes "controllers_allocated s"
  shows "nextController s \<notin> aborted s"
    and "currentOperationController s \<noteq> Some (nextController s)"
  using assms by (auto simp: controllers_allocated_def)

section \<open>Cancellation\<close>

text \<open>
  C2, evaluated on the code. A guest starts hiding and cancels before the exchange
  settles. The controller is aborted and \<open>fetch\<close> rejects with an \<open>AbortError\<close>, but
  \<open>hideData\<close> throws it again as a plain \<open>Error\<close>, so the test on the error's name in
  \<open>startHiding\<close> lets it through: the operation ends as failed and the toast for a
  failed operation is shown.
\<close>

theorem cancel_ends_failed_with_toast:
  "fst (startHiding [] guest) = Started hide_op0
   \<and> fst (startHiding_settle hide_op0 hide_ok (cancelOperation (snd (startHiding [] guest)))) = Failed
   \<and> toasts (snd (startHiding_settle hide_op0 hide_ok (cancelOperation (snd (startHiding [] guest)))))
       = [\<lparr>toast_message = MsgHideFailed (MsgHideData MsgBrowser), toast_type = ToastError\<rparr>]"
  unfolding start_guest fst_conv snd_conv
  by (simp add: cancelOperation_def settle_defs read_sample hide_op0_def hide_ok_def
      exchange_result_def guest_def constructor_def)

section \<open>Starting while an operation is in flight\<close>

lemma start_guest_again:
  "startHiding [] (guest\<lparr>currentOperationController := Some 0, nextController := 1\<rparr>)
     = (Started (hide_op0\<lparr>op_signal := 1\<rparr>),
        guest\<lparr>currentOperationController := Some 1, nextController := 2\<rparr>)"
  by (simp add: startHiding_def guest_def constructor_def isUserLoggedIn_def hide_op0_def)

lemma start_extract_guest:
  "startExtracting [] (guest\<lparr>currentOperationController := Some 0, nextController := 1\<rparr>)
     = (Started (extract_op0\<lparr>xop_signal := 1\<rparr>),
        guest\<lparr>currentOperationController := Some 1, nextController := 2\<rparr>)"
  by (simp add: startExtracting_def guest_def constructor_def isUserLoggedIn_def extract_op0_def)

text \<open>
  The claim C3 fails on the code: a guest starts hiding twice in a row. The second start
  creates a second controller and leaves the first one alone; the first exchange is not
  aborted and, when it settles, the first operation succeeds.
\<close>

theorem second_start_leaves_first_running:
  "fst (startHiding [] guest) = Started hide_op0
   \<and> fst (startHiding [] (snd (startHiding [] guest))) = Started (hide_op0\<lparr>op_signal := 1\<rparr>)
   \<and> op_signal hide_op0 \<notin> aborted (snd (startHiding [] (snd (startHiding [] guest))))
   \<and> fst (startHiding_settle hide_op0 hide_ok (snd (startHiding [] (snd (startHiding [] guest)))))
       = Succeeded"
  unfolding start_guest fst_conv snd_conv start_guest_again
  by (simp add: settle_defs read_sample hide_op0_def hide_ok_def exchange_result_def blob_TWFu
      guest_def constructor_def)

text \<open>
  C3, as amended. A start cancels nothing. In every state whose controllers are
  allocated, \<open>startHiding\<close> and \<open>startExtracting\<close> abort no controller and revoke no
  tracked resource, and an operation in flight ends, when its exchange settles after the
  start, as it would have ended without it. A start that passes the gate and the
  completeness check puts the new operation's controller in
  \<open>currentOperationController\<close>; this controller is not the one that was there and is not
  aborted, and a \<open>cancelOperation\<close> that follows aborts it and no other.
\<close>

theorem start_never_cancels:
  assumes "controllers_allocated s"
  shows
  "aborted (snd (startHiding pw s)) = aborted s
   \<and> objectURLs (snd (startHiding pw s)) = objectURLs s
   \<and> blobStore (snd (startHiding pw s)) = blobStore s
   \<and> fst (startHiding_settle op0 env0 (snd (startHiding pw s))) = fst (startHiding_settle op0 env0 s)
   \<and> fst (startExtracting_settle xop0 xenv0 (snd (startHiding pw s)))
       = fst (startExtracting_settle xop0 xenv0 s)
   \<and> (fst (startHiding pw s) = Started op
        \<longrightarrow> currentOperationController (snd (startHiding pw s)) = Some (op_signal op)
            \<and> op_signal op \<notin> aborted s
            \<and> currentOperationController s \<noteq> Some (op_signal op)
            \<and> aborted (cancelOperation (snd (startHiding pw s))) = insert (op_signal op) (aborted s))
   \<and> aborted (snd (startExtracting pw s)) = aborted s
   \<and> objectURLs (snd (startExtracting pw s)) = objectURLs s
   \<and> blobStore (snd (startExtracting pw s)) = blobStore s
   \<and> fst (startHiding_settle op0 env0 (snd (startExtracting pw s)))
       = fst (startHiding_settle op0 env0 s)
   \<and> fst (startExtracting_settle xop0 xenv0 (snd (startExtracting pw s)))
       = fst (startExtracting_settle xop0 xenv0 s)
   \<and> (fst (startExtracting pw s) = Started xop
        \<longrightarrow> currentOperationController (snd (startExtracting pw s)) = Some (xop_signal xop)
            \<and> xop_signal xop \<notin> aborted s
            \<and> currentOperationController s \<noteq> Some (xop_signal xop)
            \<and> aborted (cancelOperation (snd (startExtracting pw s)))
                = insert (xop_signal xop) (aborted s))"
proof -
  have h: "fst (startHiding pw s) = Started op
        \<longrightarrow> currentOperationController (snd (startHiding pw s)) = Some (op_signal op)
            \<and> op_signal op \<notin> aborted s
            \<and> currentOperationController s \<noteq> Some (op_signal op)
            \<and> aborted (cancelOperation (snd (startHiding pw s))) = insert (op_signal op) (aborted s)"
  proof
    assume st: "fst (startHiding pw s) = Started op"
    note a = started_hiding[OF st]
    have "aborted (cancelOperation (snd (startHiding pw s)))
            = insert (nextController s) (aborted (snd (startHiding pw s)))"
      by (rule cancel_aborts_current[OF a(2)])
    then show "currentOperationController (snd (startHiding pw s)) = Some (op_signal op)
            \<and> op_signal op \<notin> aborted s
            \<and> currentOperationController s \<noteq> Some (op_signal op)
            \<and> aborted (cancelOperation (snd (startHiding pw s))) = insert (op_signal op) (aborted s)"
      using a allocated_fresh[OF assms] by (simp add: start_controllers)
  qed
  have x: "fst (startExtracting pw s) = Started xop
        \<longrightarrow> currentOperationController (snd (startExtracting pw s)) = Some (xop_signal xop)
            \<and> xop_signal xop \<notin> aborted s
            \<and> currentOperationController s \<noteq> Some (xop_signal xop)
            \<and> aborted (cancelOperation (snd (startExtracting pw s)))
                = insert (xop_signal xop) (aborted s)"
  proof
    assume st: "fst (startExtracting pw s) = Started xop"
    note a = started_extracting[OF st]
    have "aborted (cancelOperation (snd (startExtracting pw s)))
            = insert (nextController s) (aborted (snd (startExtracting pw s)))"
      by (rule cancel_aborts_current[OF a(2)])
    then show "currentOperationController (snd (startExtracting pw s)) = Some (xop_signal xop)
            \<and> xop_signal xop \<notin> aborted s
            \<and> currentOperationController s \<noteq> Some (xop_signal xop)
            \<and> aborted (cancelOperation (snd (startExtracting pw s)))
                = insert (xop_signal xop) (aborted s)"
      using a allocated_fresh[OF assms] by (simp add: start_controllers)
  qed
  show ?thesis
    using h x
    by (simp add: start_controllers start_frame settle_outcome start_keeps_outcome)
qed

theorem start_never_cancels_witness:
  "controllers_allocated (snd (startHiding [] guest))
   \<and> currentOperationController (snd (startHiding [] (snd (startHiding [] guest)))) = Some 1
   \<and> aborted (cancelOperation (snd (startHiding [] (snd (startHiding [] guest))))) = {1}
   \<and> fst (startHiding_settle hide_op0 hide_ok (snd (startHiding [] (snd (startHiding [] guest)))))
       = Succeeded
   \<and> currentOperationController (snd (startExtracting [] (snd (startHiding [] guest)))) = Some 1
   \<and> aborted (cancelOperation (snd (startExtracting [] (snd (startHiding [] guest))))) = {1}"
proof -
  let ?s1 = "guest\<lparr>currentOperationController := Some 0, nextController := 1\<rparr>"
  have s1: "snd (startHiding [] guest) = ?s1" by (simp add: start_guest)
  have al: "controllers_allocated ?s1"
    by (simp add: controllers_allocated_def guest_def constructor_def)
  have g: "aborted ?s1 = {}"
    by (simp add: guest_def constructor_def)
  have st: "fst (startHiding [] ?s1) = Started (hide_op0\<lparr>op_signal := 1\<rparr>)"
    "fst (startExtracting [] ?s1) = Started (extract_op0\<lparr>xop_signal := 1\<rparr>)"
    by (simp_all only: start_guest_again start_extract_guest fst_conv)
  show ?thesis
    using start_never_cancels[OF al, where pw = "[]" and ?op0.0 = hide_op0 and ?env0.0 = hide_ok
        and op = "hide_op0\<lparr>op_signal := 1\<rparr>" and xop = "extract_op0\<lparr>xop_signal := 1\<rparr>"
        and ?xop0.0 = extract_op0 and ?xenv0.0 = extract_ok]
      st settle_guest_hide g al
    by (simp add: s1 hide_op0_def extract_op0_def)
qed

section \<open>Usage gate\<close>

text \<open>
  What the gate tests: a start is let through exactly when \<open>isUserLoggedIn\<close> holds or
  the anonymous counter is below the limit of the kind, 10 for hiding and 2 for
  extracting.
\<close>

lemma gate_permits:
  "(fst (startHiding pw s) \<noteq> QuotaDenied \<longleftrightarrow> isUserLoggedIn s \<or> anonOperationCount s < 10)
   \<and> (fst (startExtracting pw s) \<noteq> QuotaDenied \<longleftrightarrow> isUserLoggedIn s \<or> anonOperationCount s < 2)"
  by (auto simp: startHiding_def startExtracting_def Let_def split: option.splits)

lemma gate_permits_examples:
  "fst (startHiding [] (guest\<lparr>anonOperationCount := 9\<rparr>)) \<noteq> QuotaDenied
   \<and> fst (startHiding [] (guest\<lparr>anonOperationCount := 10\<rparr>)) = QuotaDenied
   \<and> fst (startExtracting [] (guest\<lparr>anonOperationCount := 1\<rparr>)) \<noteq> QuotaDenied
   \<and> fst (startExtracting [] (guest\<lparr>anonOperationCount := 2\<rparr>)) = QuotaDenied
   \<and> fst (startExtracting [] (guest\<lparr>anonOperationCount := 2, navAvatarHidden := Some False\<rparr>))
       \<noteq> QuotaDenied"
  using gate_permits[of "[]" "guest\<lparr>anonOperationCount := 9\<rparr>"]
    gate_permits[of "[]" "guest\<lparr>anonOperationCount := 10\<rparr>"]
    gate_permits[of "[]" "guest\<lparr>anonOperationCount := 1\<rparr>"]
    gate_permits[of "[]" "guest\<lparr>anonOperationCount := 2\<rparr>"]
    gate_permits[of "[]" "guest\<lparr>anonOperationCount := 2, navAvatarHidden := Some False\<rparr>"]
  by (simp add: isUserLoggedIn_def guest_def constructor_def)

lemmas run_defs = run_def startExtracting_def isUserLoggedIn_def settle_defs read_sample
  exchange_result_def blob_TWFu checkAchievements_def newAchievements_def hasAchievement_def
  showAchievement_def saveStats_def saveAchievements_def saveStatsToCloud_def
  updateStatsAfterOperation_def loadGoogleUser_def guest_def constructor_def loadStats_def
  loadAchievements_def extract_op0_def extract_ok_def

text \<open>
  C4, evaluated on the code. The reply of \<open>/api/user\<close> says that the user is logged in
  and gives no picture: \<open>loadGoogleUser\<close> resets the anonymous counter, as on every login,
  and leaves the avatar hidden, so \<open>isUserLoggedIn\<close> is false. Two extractions succeed and
  are counted; the third start of an extraction is denied at the gate, in a session that
  is authenticated.
\<close>

theorem signed_in_without_picture_denied:
  "anonOperationCount
     (run [EvLoadGoogleUser no_picture_profile,
           EvStartExtracting [], EvSettleExtracting extract_op0 extract_ok,
           EvStartExtracting [], EvSettleExtracting (extract_op0\<lparr>xop_signal := 1\<rparr>) extract_ok]
        guest) = 2
   \<and> fst (startExtracting []
     (run [EvLoadGoogleUser no_picture_profile,
           EvStartExtracting [], EvSettleExtracting extract_op0 extract_ok,
           EvStartExtracting [], EvSettleExtracting (extract_op0\<lparr>xop_signal := 1\<rparr>) extract_ok]
        guest)) = QuotaDenied"
  by (simp add: run_defs no_picture_profile_def)

text \<open>
  C5. For a session that is not logged in and whose counter has reached the limit, a
  start returns at the gate and changes nothing but the login prompt, which it shows:
  no call of \<open>fetch\<close>, no object URL, no controller, and the counter, the stats and
  the stored values as they were.
\<close>

theorem quota_denial_no_effects:
  "(\<not> isUserLoggedIn s \<and> 10 \<le> anonOperationCount s
      \<longrightarrow> startHiding pw s = (QuotaDenied, s\<lparr>loginPrompt := True\<rparr>))
   \<and> (\<not> isUserLoggedIn s \<and> 2 \<le> anonOperationCount s
      \<longrightarrow> startExtracting pw s = (QuotaDenied, s\<lparr>loginPrompt := True\<rparr>))"
  by (simp add: startHiding_def startExtracting_def showLoginPrompt_def)

theorem quota_denial_no_effects_witness:
  "startHiding [] (guest\<lparr>anonOperationCount := 10\<rparr>)
     = (QuotaDenied, guest\<lparr>anonOperationCount := 10, loginPrompt := True\<rparr>)
   \<and> startExtracting [] (guest\<lparr>anonOperationCount := 10\<rparr>)
     = (QuotaDenied, guest\<lparr>anonOperationCount := 10, loginPrompt := True\<rparr>)"
  using quota_denial_no_effects[of "guest\<lparr>anonOperationCount := 10\<rparr>" "[]"]
  by (simp add: isUserLoggedIn_def guest_def constructor_def)

section \<open>Anonymous usage counter\<close>

text \<open>
  C6, evaluated on the code. The counter is left alone by a start, by a cancel and by an
  operation that fails or is cancelled (lemmas \<open>counter_only_on_completion\<close> and
  \<open>failure_not_counted\<close>), but the session it is counted for is the one without a shown
  avatar: for a user who is logged in and has no picture, a successful extraction raises
  the counter from 0 to 1.
\<close>

theorem signed_in_without_picture_counted:
  "anonOperationCount (run [EvLoadGoogleUser no_picture_profile] guest) = 0
   \<and> anonOperationCount
       (run [EvLoadGoogleUser no_picture_profile,
             EvStartExtracting [], EvSettleExtracting extract_op0 extract_ok] guest) = 1"
  by (simp add: run_defs no_picture_profile_def)


section \<open>Stats\<close>

lemma run_extract_guest:
  "stats (run [EvStartExtracting [], EvSettleExtracting extract_op0 extract_ok] guest)
     = \<lparr>filesProcessed = 1, dataHidden = 0, successfulOperations = 1\<rparr>"
  by (simp add: run_def startExtracting_def isUserLoggedIn_def settle_defs read_sample
      extract_op0_def extract_ok_def exchange_result_def blob_TWFu checkAchievements_frame
      updateStatsAfterOperation_def saveStats_def saveStatsToCloud_def
      guest_def constructor_def loadStats_def)

lemmas ledger_defs = checkAchievements_def newAchievements_def hasAchievement_def showAchievement_def
  showToast_def saveStats_def saveAchievements_def saveStatsToCloud_def updateStatsAfterOperation_def

text \<open>
  The claim C7 fails on the code: for a returning user with five operations on record,
  \<open>logoutGoogle\<close> sets the counters to zero, and the arrival of a profile whose counters
  are lower replaces them by the lower ones.
\<close>

theorem stats_reset_counterexample:
  "\<not> stats_le (stats returning) (stats (logoutGoogle returning))
   \<and> \<not> stats_le (stats returning) (stats (loadGoogleUser empty_profile returning))"
  by (simp add: stats_le_def returning_def constructor_def loadStats_def logoutGoogle_def
      loadGoogleUser_def empty_profile_def showToast_def saveStats_def saveAchievements_def Let_def)

text \<open>
  C7, as amended. Along any sequence of events none of which assigns \<open>this.stats\<close> (no
  logout, and no reply for a logged-in user that carries stats and finds the avatar
  element), no counter of the stats ever decreases, and \<open>updateStatsAfterOperation\<close>
  with a size that is not negative decreases none. \<open>logoutGoogle\<close> sets the three
  counters to zero; \<open>loadGoogleUser\<close> replaces the stats by the profile's when the reply
  is for a logged-in user, carries stats and the avatar element exists, and leaves them
  as they are for every other reply.
\<close>

theorem stats_nondecreasing_without_reset:
  "(keeps_stats es s \<longrightarrow> stats_le (stats s) (stats (run es s)))
   \<and> (0 \<le> n \<longrightarrow> stats_le (stats s) (stats (updateStatsAfterOperation operation n s)))
   \<and> stats (logoutGoogle s) = \<lparr>filesProcessed = 0, dataHidden = 0, successfulOperations = 0\<rparr>
   \<and> stats (loadGoogleUser None s) = stats s
   \<and> (navAvatarHidden s \<noteq> None \<and> logged_in user \<and> user_stats user = Some (st, ach)
        \<longrightarrow> stats (loadGoogleUser (Some user) s) = st)
   \<and> (navAvatarHidden s = None \<or> \<not> logged_in user \<or> user_stats user = None
        \<longrightarrow> stats (loadGoogleUser (Some user) s) = stats s)"
  using run_stats_le[of es s] upd_stats_le[of n s operation]
    loadGoogleUser_stats(2)[of s user st ach] loadGoogleUser_stats(3)[of s user]
  by (simp add: loadGoogleUser_stats(1) logoutGoogle_def showToast_def saveStats_def
      saveAchievements_def Let_def)

theorem stats_nondecreasing_without_reset_witness:
  "stats_le (stats guest)
     (stats (run [EvCheckAchievements, EvLoadGoogleUser visitor_reply, EvStartExtracting [],
                  EvSettleExtracting extract_op0 extract_ok] guest))
   \<and> stats_le (stats guest) (stats (updateStatsAfterOperation ''hide'' 3 guest))
   \<and> stats (loadGoogleUser empty_profile returning)
       = \<lparr>filesProcessed = 0, dataHidden = 0, successfulOperations = 0\<rparr>
   \<and> stats (loadGoogleUser visitor_reply returning) = stats returning"
proof -
  have k: "keeps_stats [EvCheckAchievements, EvLoadGoogleUser visitor_reply, EvStartExtracting [],
                  EvSettleExtracting extract_op0 extract_ok] guest"
    by (simp add: visitor_reply_def)
  have a: "navAvatarHidden returning \<noteq> None"
    by (simp add: returning_def constructor_def)
  show ?thesis
    using stats_nondecreasing_without_reset
        [of "[EvCheckAchievements, EvLoadGoogleUser visitor_reply, EvStartExtracting [],
              EvSettleExtracting extract_op0 extract_ok]" guest 3 "''hide''"]
      stats_nondecreasing_without_reset
        [of "[]" returning 0 "''hide''"
            "\<lparr>logged_in = True, has_picture = True,
              user_stats = Some (\<lparr>filesProcessed = 0, dataHidden = 0, successfulOperations = 0\<rparr>, None)\<rparr>"
            "\<lparr>filesProcessed = 0, dataHidden = 0, successfulOperations = 0\<rparr>" None]
      stats_nondecreasing_without_reset
        [of "[]" returning 0 "''hide''"
            "\<lparr>logged_in = False, has_picture = False, user_stats = None\<rparr>"]
      k a
    by (simp add: empty_profile_def visitor_reply_def)
qed

section \<open>Sanitised file names\<close>

text \<open>
  What \<open>sanitizeFilename\<close> does guarantee: at most 255 code units, none of them in the
  class it strips.
\<close>

lemma trim_length: "length (trim xs) \<le> length xs"
  unfolding trim_def
  by (metis length_dropWhile_le length_rev order_trans)

lemma trim_set: "set (trim xs) \<subseteq> set xs"
  unfolding trim_def
  by (metis set_dropWhileD set_rev subsetI)

lemma sanitizeFilename_length: "length (sanitizeFilename f) \<le> 255"
  using trim_length[of "take 255 (dropWhile (\<lambda>c. c = 46) (filter (\<lambda>c. \<not> stripped_char c) f))"]
  by (simp add: sanitizeFilename_def)

lemma sanitizeFilename_stripped: "c \<in> set (sanitizeFilename f) \<Longrightarrow> \<not> stripped_char c"
proof -
  assume a: "c \<in> set (sanitizeFilename f)"
  then have "c \<in> set (take 255 (dropWhile (\<lambda>c. c = 46) (filter (\<lambda>c. \<not> stripped_char c) f)))"
    using trim_set by (auto simp: sanitizeFilename_def split: if_splits)
  then have "c \<in> set (filter (\<lambda>c. \<not> stripped_char c) f)"
    by (meson in_set_takeD set_dropWhileD)
  then show ?thesis by simp
qed

text \<open>
  C9, evaluated on the code. The class that is stripped has neither the slash nor the
  backslash, and of the control characters only those below U+0020: a name with a
  backslash (code unit 92), one with a slash (47) and one with U+007F (127) come back
  unchanged.
\<close>

theorem sanitizeFilename_keeps_separators:
  "sanitizeFilename [97, 92, 98, 46, 112, 110, 103] = [97, 92, 98, 46, 112, 110, 103]
   \<and> sanitizeFilename [97, 47, 98, 46, 112, 110, 103] = [97, 47, 98, 46, 112, 110, 103]
   \<and> sanitizeFilename [97, 127, 98] = [97, 127, 98]"
  by (simp add: sanitizeFilename_def trim_def stripped_char_def js_white_space_def)

section \<open>The achievement for the first file\<close>

text \<open>
  The claim C10 fails on the code in its second half: the application starts with five
  operations on record and evaluates the achievements, then the profile of the signed-in
  user arrives with its counters at zero, and the next successful extraction brings
  \<open>filesProcessed\<close> to one: \<open>first_file\<close> is unlocked.
\<close>

theorem first_file_after_profile_reload:
  "2 \<le> filesProcessed (stats returning)
   \<and> ''first_file'' \<notin> set (achievements (run [EvCheckAchievements] returning))
   \<and> ''first_file'' \<in> set (achievements
         (run [EvCheckAchievements, EvLoadGoogleUser empty_profile, EvStartExtracting [],
               EvSettleExtracting extract_op0 extract_ok] returning))"
  by (simp add: run_def ledger_defs loadGoogleUser_def empty_profile_def startExtracting_def
      isUserLoggedIn_def settle_defs read_sample extract_op0_def extract_ok_def
      exchange_result_def blob_TWFu returning_def constructor_def loadStats_def
      loadAchievements_def)

text \<open>
  C10, as amended. \<open>checkAchievements\<close> unlocks \<open>first_file\<close> only when
  \<open>filesProcessed\<close> is exactly one; once it is two or more and \<open>first_file\<close> is not
  unlocked, no sequence of events unlocks it unless one of them assigns \<open>this.stats\<close>: a
  logout, or a reply for a logged-in user that carries stats and finds the avatar
  element. Every other reply of \<open>/api/user\<close> is allowed in the sequence.
\<close>

theorem first_file_only_at_one:
  "(''first_file'' \<in> set (achievements (checkAchievements s))
      \<longleftrightarrow> ''first_file'' \<in> set (achievements s) \<or> filesProcessed (stats s) = 1)
   \<and> (2 \<le> filesProcessed (stats s) \<and> ''first_file'' \<notin> set (achievements s)
        \<and> keeps_stats es s
      \<longrightarrow> ''first_file'' \<notin> set (achievements (run es s)))"
  using run_first_file[of s es]
  by (auto simp: checkAchievements_frame first_file_new)

theorem first_file_only_at_one_witness:
  "''first_file'' \<notin> set (achievements
      (run [EvCheckAchievements, EvLoadGoogleUser visitor_reply, EvStartExtracting [],
            EvSettleExtracting extract_op0 extract_ok, EvLoadGoogleUser None]
         returning))
   \<and> ''first_file'' \<in> set (achievements
      (checkAchievements (updateStatsAfterOperation ''extract'' 0 guest)))"
proof -
  have r: "2 \<le> filesProcessed (stats returning)" "''first_file'' \<notin> set (achievements returning)"
    by (simp_all add: returning_def constructor_def loadStats_def loadAchievements_def)
  have k: "keeps_stats [EvCheckAchievements, EvLoadGoogleUser visitor_reply, EvStartExtracting [],
            EvSettleExtracting extract_op0 extract_ok, EvLoadGoogleUser None] returning"
    by (simp add: visitor_reply_def)
  have g: "filesProcessed (stats (updateStatsAfterOperation ''extract'' 0 guest)) = 1"
    by (simp add: updateStats_frame guest_def constructor_def loadStats_def)
  show ?thesis
    using first_file_only_at_one
      [of returning "[EvCheckAchievements, EvLoadGoogleUser visitor_reply, EvStartExtracting [],
            EvSettleExtracting extract_op0 extract_ok, EvLoadGoogleUser None]"]
      first_file_only_at_one[of "updateStatsAfterOperation ''extract'' 0 guest" "[]"]
      r k g
    by simp
qed

section \<open>Releasing tracked resources\<close>

text \<open>
  C8. Revoking a handle that is not tracked (never created, or revoked before) returns the
  state as it was, revoking the same handle twice is revoking it once, and after
  \<open>cleanupObjectURLs\<close> the tracked set is empty. Both functions are total: the source has
  no path that throws.
\<close>

theorem revoke_idempotent_cleanup_empty:
  "(u \<notin> objectURLs s \<longrightarrow> revokeTrackedObjectURL u s = s)
   \<and> revokeTrackedObjectURL u (revokeTrackedObjectURL u s) = revokeTrackedObjectURL u s
   \<and> u \<notin> objectURLs (revokeTrackedObjectURL u s)
   \<and> objectURLs (cleanupObjectURLs s) = {}"
  by (simp add: revokeTrackedObjectURL_def cleanupObjectURLs_def)

theorem revoke_idempotent_cleanup_empty_witness:
  "revokeTrackedObjectURL 5 ((constructor None None None None)\<lparr>objectURLs := {3}\<rparr>)
     = (constructor None None None None)\<lparr>objectURLs := {3}\<rparr>
   \<and> objectURLs (cleanupObjectURLs ((constructor None None None None)\<lparr>objectURLs := {3}\<rparr>)) = {}"
  using revoke_idempotent_cleanup_empty
    [of 5 "(constructor None None None None)\<lparr>objectURLs := {3}\<rparr>"]
  by simp

end
